theory Spec2Isabelle
  imports Main "HOL-Library.Word"
begin

section \<open>The managed sync node of the supervisor (op-supervisor, package syncnode)\<close>

text \<open>
  A shallow embedding of \<^verbatim>\<open>op-supervisor/supervisor/backend/syncnode/node.go\<close>.
  The backend (the safety oracle) and the node (the sync target) are Go interfaces: they
  are fields of the \<open>ManagedNode\<close> record, each a function of an abstract world \<open>'w\<close> that
  returns its Go result together with the next world, so that a call may answer
  differently each time. Every call on an interface, every log line and every emitted
  event is appended to a trace, which is what the theorems observe.
  Contexts and their timeouts are not modelled: a cancelled context is an error result of
  the call that received it.
\<close>

subsection \<open>Data\<close>

type_synonym uint64 = "64 word"
type_synonym Hash = "256 word"
type_synonym ChainID = "256 word"

text \<open>\<^verbatim>\<open>eth.BlockID\<close>, and \<^verbatim>\<open>eth.BlockRef\<close> (the same type as \<^verbatim>\<open>eth.L1BlockRef\<close>),
  which has the fields of a block identifier and two more; \<^verbatim>\<open>ID()\<close> keeps the first two.\<close>

record BlockID =
  Hash :: Hash
  Number :: uint64

record BlockRef = BlockID +
  ParentHash :: Hash
  Time :: uint64

definition ID :: "BlockRef \<Rightarrow> BlockID" where
  "ID r = \<lparr>Hash = Hash r, Number = Number r\<rparr>"

text \<open>The zero values \<^verbatim>\<open>eth.BlockID{}\<close> and \<^verbatim>\<open>eth.L1BlockRef{}\<close>.\<close>

definition BlockID_zero :: BlockID where
  "BlockID_zero = \<lparr>Hash = 0, Number = 0\<rparr>"

definition BlockRef_zero :: BlockRef where
  "BlockRef_zero = \<lparr>Hash = 0, Number = 0, ParentHash = 0, Time = 0\<rparr>"

text \<open>\<^verbatim>\<open>types.DerivedIDPair\<close> and \<^verbatim>\<open>types.DerivedBlockRefPair\<close>: a derived L2 block and
  the L1 block it was derived from.\<close>

record 'a DerivedPair =
  DerivedFrom :: 'a
  Derived :: 'a

type_synonym DerivedIDPair = "BlockID DerivedPair"
type_synonym DerivedBlockRefPair = "BlockRef DerivedPair"

definition DerivedIDPair_zero :: DerivedIDPair where
  "DerivedIDPair_zero = \<lparr>DerivedFrom = BlockID_zero, Derived = BlockID_zero\<rparr>"

text \<open>\<^verbatim>\<open>types.BlockReplacement\<close>, the payload of a replace-block event. Its declaration is
  in another package; the fields are those the specification gives.\<close>

record BlockReplacement =
  Replacement :: BlockRef
  Invalidated :: BlockID

text \<open>\<^verbatim>\<open>types.ManagedEvent\<close>: five optional fields, a nil pointer being \<open>None\<close>.\<close>

record ManagedEvent =
  ev_Reset :: "string option"
  ev_UnsafeBlock :: "BlockRef option"
  ev_DerivationUpdate :: "DerivedBlockRefPair option"
  ev_ExhaustL1 :: "DerivedBlockRefPair option"
  ev_ReplaceBlock :: "BlockReplacement option"

subsection \<open>Constants\<close>

definition maxWalkBackAttempts :: nat where
  "maxWalkBackAttempts = 300"

definition blockNotFoundRPCErrCode :: int where
  "blockNotFoundRPCErrCode = - 39001"

definition conflictingBlockRPCErrCode :: int where
  "conflictingBlockRPCErrCode = - 39002"

subsection \<open>Errors\<close>

text \<open>The format strings of the \<^verbatim>\<open>fmt.Errorf\<close> calls of the file, with their arguments;
  \<open>Text\<close> is the message of an error made elsewhere.\<close>

datatype fmt =
    FailedRetrieveSafeFor BlockID
  | ErrorDuringReset
  | ReachedFinalized uint64
  | FailedRetrieveSafeBlock uint64
  | ErrorDuringResetAt uint64
  | ExceededMaxWalkBack nat
  | Text string

text \<open>A Go error: the sentinels the file compares against (\<^verbatim>\<open>io.EOF\<close>,
  \<^verbatim>\<open>types.ErrFuture\<close>, \<^verbatim>\<open>types.ErrConflict\<close>, \<^verbatim>\<open>types.ErrOutOfOrder\<close>,
  \<^verbatim>\<open>ethereum.NotFound\<close>), the RPC error \<^verbatim>\<open>*gethrpc.JsonError\<close> with its code and message,
  any other plain error, and \<^verbatim>\<open>fmt.Errorf\<close>, which wraps the error given to \<^verbatim>\<open>%w\<close>
  (none when the format has no \<^verbatim>\<open>%w\<close> or the argument is nil).\<close>

datatype error =
    EOF
  | ErrFuture
  | ErrConflict
  | ErrOutOfOrder
  | NotFound
  | JsonError int string
  | ErrorString string
  | Errorf fmt "error option"

text \<open>\<^verbatim>\<open>errors.Is\<close> walks the chain of wrapped errors and compares each with the target;
  a nil error matches none of the targets the file uses.\<close>

fun chain_Is :: "error \<Rightarrow> error \<Rightarrow> bool" where
  "chain_Is (Errorf m (Some e)) target = (Errorf m (Some e) = target \<or> chain_Is e target)"
| "chain_Is e target = (e = target)"

definition errors_Is :: "error option \<Rightarrow> error \<Rightarrow> bool" where
  "errors_Is err target = (case err of None \<Rightarrow> False | Some e \<Rightarrow> chain_Is e target)"

text \<open>\<^verbatim>\<open>errors.As(err, &rpcErr)\<close> finds the first \<^verbatim>\<open>*gethrpc.JsonError\<close> of the chain;
  the result is its code.\<close>

fun errors_As_JsonError :: "error \<Rightarrow> int option" where
  "errors_As_JsonError (JsonError code msg) = Some code"
| "errors_As_JsonError (Errorf m (Some e)) = errors_As_JsonError e"
| "errors_As_JsonError e = None"

text \<open>The test both \<^verbatim>\<open>tryReset\<close> and the walk-back loop make on a failed reset:
  the error is an RPC error whose code is "block not found" or "conflicting block".\<close>

definition walkable :: "error \<Rightarrow> bool" where
  "walkable err =
     (case errors_As_JsonError err of
        None \<Rightarrow> False
      | Some code \<Rightarrow> code = blockNotFoundRPCErrCode \<or> code = conflictingBlockRPCErrCode)"

subsection \<open>The node, its collaborators and the trace\<close>

datatype level = LevelDebug | LevelInfo | LevelWarn | LevelError

text \<open>The events the node emits on the bus (package superevents).\<close>

datatype superevent =
    LocalUnsafeReceivedEvent ChainID BlockRef
  | LocalDerivedEvent ChainID DerivedBlockRefPair
  | ReplaceBlockEvent ChainID BlockReplacement

datatype effect =
    Log level string
  | Emit superevent
  | CallLocalSafe ChainID
  | CallLocalUnsafe ChainID
  | CallCrossSafe ChainID
  | CallSafeDerivedAt ChainID BlockID
  | CallFinalized ChainID
  | CallL1BlockRefByNumber uint64
  | CallReset BlockID BlockID BlockID
  | CallProvideL1 BlockRef
  | CallPullEvent

text \<open>A Go call returns its value and its error side by side; \<open>None\<close> is the nil error.\<close>

type_synonym 'a result = "'a \<times> error option"

record 'w ManagedNode =
  chainID :: ChainID
  backend_LocalSafe :: "'w \<Rightarrow> ChainID \<Rightarrow> DerivedIDPair result \<times> 'w"
  backend_LocalUnsafe :: "'w \<Rightarrow> ChainID \<Rightarrow> BlockID result \<times> 'w"
  backend_CrossSafe :: "'w \<Rightarrow> ChainID \<Rightarrow> DerivedIDPair result \<times> 'w"
  backend_SafeDerivedAt :: "'w \<Rightarrow> ChainID \<Rightarrow> BlockID \<Rightarrow> BlockID result \<times> 'w"
  backend_Finalized :: "'w \<Rightarrow> ChainID \<Rightarrow> BlockID result \<times> 'w"
  backend_L1BlockRefByNumber :: "'w \<Rightarrow> uint64 \<Rightarrow> BlockRef result \<times> 'w"
  Node_Reset :: "'w \<Rightarrow> BlockID \<Rightarrow> BlockID \<Rightarrow> BlockID \<Rightarrow> error option \<times> 'w"
  Node_ProvideL1 :: "'w \<Rightarrow> BlockRef \<Rightarrow> error option \<times> 'w"
  Node_PullEvent :: "'w \<Rightarrow> ManagedEvent option result \<times> 'w"

text \<open>The state threaded through the node's methods: the world of the collaborators and
  the trace so far, oldest effect first.\<close>

type_synonym 'w state = "'w \<times> effect list"

definition log :: "level \<Rightarrow> string \<Rightarrow> 'w state \<Rightarrow> 'w state" where
  "log lvl msg st = (fst st, snd st @ [Log lvl msg])"

definition emit :: "superevent \<Rightarrow> 'w state \<Rightarrow> 'w state" where
  "emit ev st = (fst st, snd st @ [Emit ev])"

text \<open>A call on an interface: run it in the world, record it.\<close>

definition call :: "effect \<Rightarrow> ('w \<Rightarrow> 'a \<times> 'w) \<Rightarrow> 'w state \<Rightarrow> 'a \<times> 'w state" where
  "call c f st = (fst (f (fst st)), (snd (f (fst st)), snd st @ [c]))"

definition LocalSafe :: "'w ManagedNode \<Rightarrow> 'w state \<Rightarrow> DerivedIDPair result \<times> 'w state" where
  "LocalSafe m = call (CallLocalSafe (chainID m)) (\<lambda>w. backend_LocalSafe m w (chainID m))"

definition LocalUnsafe :: "'w ManagedNode \<Rightarrow> 'w state \<Rightarrow> BlockID result \<times> 'w state" where
  "LocalUnsafe m = call (CallLocalUnsafe (chainID m)) (\<lambda>w. backend_LocalUnsafe m w (chainID m))"

definition CrossSafe :: "'w ManagedNode \<Rightarrow> 'w state \<Rightarrow> DerivedIDPair result \<times> 'w state" where
  "CrossSafe m = call (CallCrossSafe (chainID m)) (\<lambda>w. backend_CrossSafe m w (chainID m))"

definition SafeDerivedAt ::
  "'w ManagedNode \<Rightarrow> BlockID \<Rightarrow> 'w state \<Rightarrow> BlockID result \<times> 'w state" where
  "SafeDerivedAt m derivedFrom =
     call (CallSafeDerivedAt (chainID m) derivedFrom)
       (\<lambda>w. backend_SafeDerivedAt m w (chainID m) derivedFrom)"

definition Finalized :: "'w ManagedNode \<Rightarrow> 'w state \<Rightarrow> BlockID result \<times> 'w state" where
  "Finalized m = call (CallFinalized (chainID m)) (\<lambda>w. backend_Finalized m w (chainID m))"

definition L1BlockRefByNumber ::
  "'w ManagedNode \<Rightarrow> uint64 \<Rightarrow> 'w state \<Rightarrow> BlockRef result \<times> 'w state" where
  "L1BlockRefByNumber m n =
     call (CallL1BlockRefByNumber n) (\<lambda>w. backend_L1BlockRefByNumber m w n)"

definition Reset ::
  "'w ManagedNode \<Rightarrow> BlockID \<Rightarrow> BlockID \<Rightarrow> BlockID \<Rightarrow> 'w state \<Rightarrow> error option \<times> 'w state" where
  "Reset m u s f = call (CallReset u s f) (\<lambda>w. Node_Reset m w u s f)"

definition ProvideL1 :: "'w ManagedNode \<Rightarrow> BlockRef \<Rightarrow> 'w state \<Rightarrow> error option \<times> 'w state" where
  "ProvideL1 m r = call (CallProvideL1 r) (\<lambda>w. Node_ProvideL1 m w r)"

definition PullEvent :: "'w ManagedNode \<Rightarrow> 'w state \<Rightarrow> ManagedEvent option result \<times> 'w state" where
  "PullEvent m = call CallPullEvent (\<lambda>w. Node_PullEvent m w)"

subsection \<open>resolveConflict\<close>

text \<open>The helper \<^verbatim>\<open>tryReset\<close>: one reset attempt, classified as
  (resolved, needsWalkback, err).\<close>

definition tryReset ::
  "'w ManagedNode \<Rightarrow> BlockID \<Rightarrow> BlockID \<Rightarrow> BlockID \<Rightarrow> 'w state
     \<Rightarrow> (bool \<times> bool \<times> error option) \<times> 'w state" where
  "tryReset m u f safe st =
     (case Reset m u safe f (log LevelDebug ''Attempting reset'' st) of
        (None, st') \<Rightarrow> ((True, False, None), st')
      | (Some err, st') \<Rightarrow>
          if walkable err then ((False, True, Some err), st')
          else ((False, False, Some err), st'))"

text \<open>The test of the loop on the error of a failed attempt: \<^verbatim>\<open>errors.As\<close> of a
  nil error is false.\<close>

definition notWalkable :: "error option \<Rightarrow> bool" where
  "notWalkable err = (case err of None \<Rightarrow> True | Some e \<Rightarrow> \<not> walkable e)"

text \<open>The loop \<^verbatim>\<open>for i := 0; i < maxWalkBackAttempts; i++\<close> of \<^verbatim>\<open>resolveConflict\<close>,
  from the values of \<open>i\<close> and \<open>currentBlock\<close> at the loop test. The decrement of
  \<open>currentBlock\<close> is that of a \<^verbatim>\<open>uint64\<close>: it wraps.\<close>

function walkBack ::
  "'w ManagedNode \<Rightarrow> BlockID \<Rightarrow> BlockID \<Rightarrow> nat \<Rightarrow> uint64 \<Rightarrow> 'w state
     \<Rightarrow> error option \<times> 'w state" where
  "walkBack m u f i currentBlock st =
     (if i < maxWalkBackAttempts then
        (let currentBlock = currentBlock - 1 in
         if currentBlock \<le> Number f then
           (Some (Errorf (ReachedFinalized (Number f)) None), st)
         else
           (case SafeDerivedAt m \<lparr>Hash = 0, Number = currentBlock\<rparr> st of
              ((safe, Some err), st1) \<Rightarrow>
                (Some (Errorf (FailedRetrieveSafeBlock currentBlock) (Some err)), st1)
            | ((safe, None), st1) \<Rightarrow>
                (case tryReset m u f safe st1 of
                   ((resolved, _, err), st2) \<Rightarrow>
                     if resolved then (None, st2)
                     else if notWalkable err then
                       (Some (Errorf (ErrorDuringResetAt currentBlock) err), st2)
                     else walkBack m u f (i + 1) currentBlock st2)))
      else (Some (Errorf (ExceededMaxWalkBack maxWalkBackAttempts) None), st))"
  by pat_completeness auto
termination
  by (relation "measure (\<lambda>(m, u, f, i, currentBlock, st). maxWalkBackAttempts - i)") auto

declare walkBack.simps [simp del]

definition resolveConflict ::
  "'w ManagedNode \<Rightarrow> BlockRef \<Rightarrow> BlockID \<Rightarrow> BlockID \<Rightarrow> 'w state \<Rightarrow> error option \<times> 'w state" where
  "resolveConflict m l1Ref u f st =
     (case SafeDerivedAt m (ID l1Ref) st of
        ((s, Some err), st1) \<Rightarrow> (Some (Errorf (FailedRetrieveSafeFor (ID l1Ref)) (Some err)), st1)
      | ((s, None), st1) \<Rightarrow>
          (case tryReset m u f s st1 of
             ((resolved, needsWalkback, err), st2) \<Rightarrow>
               if resolved then (None, st2)
               else if \<not> needsWalkback then (Some (Errorf ErrorDuringReset err), st2)
               else walkBack m u f 0 (Number s) st2))"

subsection \<open>resetSignal and sendReset\<close>

definition resetSignal ::
  "'w ManagedNode \<Rightarrow> error option \<Rightarrow> BlockRef \<Rightarrow> 'w state \<Rightarrow> 'w state" where
  "resetSignal m errSignal l1Ref st =
     (case LocalUnsafe m st of
        ((u, Some err), st1) \<Rightarrow> log LevelWarn ''Failed to retrieve local-unsafe'' st1
      | ((u, None), st1) \<Rightarrow>
          (case Finalized m st1 of
             ((f, Some err), st2) \<Rightarrow> log LevelWarn ''Failed to retrieve finalized'' st2
           | ((f, None), st2) \<Rightarrow>
               if errors_Is errSignal ErrConflict then
                 (case resolveConflict m l1Ref u f st2 of
                    (Some err, st3) \<Rightarrow> log LevelWarn ''Failed to resolve conflict'' st3
                  | (None, st3) \<Rightarrow> st3)
               else if errors_Is errSignal ErrFuture then
                 (case LocalSafe m st2 of
                    ((s, err), st3) \<Rightarrow>
                      (let st4 = (case err of
                                    Some e \<Rightarrow> log LevelWarn ''Failed to retrieve local-safe'' st3
                                  | None \<Rightarrow> st3);
                           st5 = log LevelDebug ''Node detected future block, resetting'' st4
                       in case Reset m u (Derived s) f st5 of
                            (Some err, st6) \<Rightarrow> log LevelWarn ''Node failed to reset'' st6
                          | (None, st6) \<Rightarrow> st6))
               else if errors_Is errSignal ErrOutOfOrder then
                 (case LocalSafe m st2 of
                    ((s, Some err), st3) \<Rightarrow> log LevelWarn ''Failed to retrieve local-safe'' st3
                  | ((s, None), st3) \<Rightarrow>
                      (case Reset m u (Derived s) f
                              (log LevelWarn ''Node detected out of order block'' st3) of
                         (Some err, st4) \<Rightarrow> log LevelWarn ''Node failed to reset'' st4
                       | (None, st4) \<Rightarrow> st4))
               else st2))"

definition sendReset :: "'w ManagedNode \<Rightarrow> 'w state \<Rightarrow> 'w state" where
  "sendReset m st =
     (case LocalUnsafe m st of
        ((u, Some err), st1) \<Rightarrow> log LevelWarn ''Failed to retrieve local-unsafe'' st1
      | ((u, None), st1) \<Rightarrow>
          (case CrossSafe m st1 of
             ((s, Some err), st2) \<Rightarrow> log LevelWarn ''Failed to retrieve cross-safe'' st2
           | ((s, None), st2) \<Rightarrow>
               (case Finalized m st2 of
                  ((f, err), st3) \<Rightarrow>
                    if err \<noteq> None \<and> \<not> errors_Is err ErrFuture then
                      log LevelWarn ''Failed to retrieve finalized'' st3
                    else
                      (let f = (if err \<noteq> None then \<lparr>Hash = 0, Number = 0\<rparr> else f)
                       in case Reset m u (Derived s) f st3 of
                            (Some err, st4) \<Rightarrow> log LevelWarn ''Node failed to reset'' st4
                          | (None, st4) \<Rightarrow> st4))))"

subsection \<open>The handlers of node events\<close>

text \<open>\<^verbatim>\<open>strings.Contains\<close>.\<close>

fun strings_Contains :: "string \<Rightarrow> string \<Rightarrow> bool" where
  "strings_Contains [] substr = (substr = [])"
| "strings_Contains (c # s) substr =
     (take (length substr) (c # s) = substr \<or> strings_Contains s substr)"

definition onResetEvent :: "'w ManagedNode \<Rightarrow> string \<Rightarrow> 'w state \<Rightarrow> 'w state" where
  "onResetEvent m errStr st =
     (let st1 = log LevelWarn ''Node sent us a reset error'' st in
      if strings_Contains errStr ''cannot continue derivation until Engine has been reset''
      then st1
      else resetSignal m (Some ErrFuture) BlockRef_zero st1)"

definition onUnsafeBlock :: "'w ManagedNode \<Rightarrow> BlockRef \<Rightarrow> 'w state \<Rightarrow> 'w state" where
  "onUnsafeBlock m unsafeRef st =
     emit (LocalUnsafeReceivedEvent (chainID m) unsafeRef)
       (log LevelInfo ''Node has new unsafe block'' st)"

definition onDerivationUpdate ::
  "'w ManagedNode \<Rightarrow> DerivedBlockRefPair \<Rightarrow> 'w state \<Rightarrow> 'w state" where
  "onDerivationUpdate m pair st =
     emit (LocalDerivedEvent (chainID m) pair) (log LevelInfo ''Node derived new block'' st)"

definition onExhaustL1Event ::
  "'w ManagedNode \<Rightarrow> DerivedBlockRefPair \<Rightarrow> 'w state \<Rightarrow> 'w state" where
  "onExhaustL1Event m completed st =
     (case L1BlockRefByNumber m (Number (DerivedFrom completed) + 1)
             (log LevelInfo ''Node completed syncing'' st) of
        ((nextL1, Some err), st1) \<Rightarrow>
          if errors_Is (Some err) NotFound
          then log LevelDebug ''Next L1 block is not yet available'' st1
          else log LevelError ''Failed to retrieve next L1 block for node'' st1
      | ((nextL1, None), st1) \<Rightarrow>
          (case ProvideL1 m nextL1 st1 of
             (Some err, st2) \<Rightarrow> log LevelWarn ''Failed to provide next L1 block to node'' st2
           | (None, st2) \<Rightarrow> st2))"

definition onReplaceBlock :: "'w ManagedNode \<Rightarrow> BlockReplacement \<Rightarrow> 'w state \<Rightarrow> 'w state" where
  "onReplaceBlock m replacement st =
     emit (ReplaceBlockEvent (chainID m) replacement)
       (log LevelInfo ''Node provided replacement block'' st)"

subsection \<open>onNodeEvent and PullEvents\<close>

definition onNodeEvent :: "'w ManagedNode \<Rightarrow> ManagedEvent option \<Rightarrow> 'w state \<Rightarrow> 'w state" where
  "onNodeEvent m ev st =
     (case ev of
        None \<Rightarrow> log LevelWarn ''Received nil event'' st
      | Some ev \<Rightarrow>
          (let st1 = (case ev_Reset ev of Some x \<Rightarrow> onResetEvent m x st | None \<Rightarrow> st);
               st2 = (case ev_UnsafeBlock ev of Some x \<Rightarrow> onUnsafeBlock m x st1 | None \<Rightarrow> st1);
               st3 = (case ev_DerivationUpdate ev of
                        Some x \<Rightarrow> onDerivationUpdate m x st2 | None \<Rightarrow> st2);
               st4 = (case ev_ExhaustL1 ev of Some x \<Rightarrow> onExhaustL1Event m x st3 | None \<Rightarrow> st3)
           in case ev_ReplaceBlock ev of Some x \<Rightarrow> onReplaceBlock m x st4 | None \<Rightarrow> st4))"

text \<open>The loop of \<^verbatim>\<open>PullEvents\<close>, from the value of \<open>pulledAny\<close> at its head. It ends
  only when a pull fails: a source that never fails keeps it running, and the value is
  \<open>None\<close>.\<close>

partial_function (option) PullEvents_loop ::
  "'w ManagedNode \<Rightarrow> bool \<Rightarrow> 'w state \<Rightarrow> ((bool \<times> error option) \<times> 'w state) option" where
  "PullEvents_loop m pulledAny st =
     (case PullEvent m st of
        ((ev, Some err), st1) \<Rightarrow>
          if errors_Is (Some err) EOF then Some ((pulledAny, None), st1)
          else Some ((pulledAny, Some err), st1)
      | ((ev, None), st1) \<Rightarrow> PullEvents_loop m True (onNodeEvent m ev st1))"

definition PullEvents ::
  "'w ManagedNode \<Rightarrow> 'w state \<Rightarrow> ((bool \<times> error option) \<times> 'w state) option" where
  "PullEvents m st = PullEvents_loop m False st"

section \<open>What the theorems speak of\<close>

subsection \<open>Observations on a trace, assumptions on the collaborators\<close>

text \<open>The safe blocks of the reset calls of a trace, in the order of the calls.\<close>

fun reset_safes :: "effect list \<Rightarrow> BlockID list" where
  "reset_safes [] = []"
| "reset_safes (CallReset u s f # es) = s # reset_safes es"
| "reset_safes (e # es) = reset_safes es"

text \<open>The blocks the oracle was asked the safe block of, in the order of the reads.\<close>

fun oracle_queries :: "effect list \<Rightarrow> BlockID list" where
  "oracle_queries [] = []"
| "oracle_queries (CallSafeDerivedAt c derivedFrom # es) = derivedFrom # oracle_queries es"
| "oracle_queries (e # es) = oracle_queries es"

text \<open>The oracle answers the query \<open>derivedFrom\<close>, in every world, with a block of
  number \<open>n\<close> and no error.\<close>

definition oracle_number :: "'w ManagedNode \<Rightarrow> BlockID \<Rightarrow> uint64 \<Rightarrow> bool" where
  "oracle_number m derivedFrom n =
     (\<forall>w. snd (fst (backend_SafeDerivedAt m w (chainID m) derivedFrom)) = None
          \<and> Number (fst (fst (backend_SafeDerivedAt m w (chainID m) derivedFrom))) = n)"

text \<open>The sync target accepts the reset to \<open>safe\<close> in every world; it rejects it in
  every world with an error the walk-back continues on.\<close>

definition reset_accepts :: "'w ManagedNode \<Rightarrow> BlockID \<Rightarrow> BlockID \<Rightarrow> BlockID \<Rightarrow> bool" where
  "reset_accepts m u safe f = (\<forall>w. fst (Node_Reset m w u safe f) = None)"

definition reset_rejects :: "'w ManagedNode \<Rightarrow> BlockID \<Rightarrow> BlockID \<Rightarrow> BlockID \<Rightarrow> bool" where
  "reset_rejects m u safe f =
     (\<forall>w. case fst (Node_Reset m w u safe f) of None \<Rightarrow> False | Some e \<Rightarrow> walkable e)"

subsection \<open>The dispatcher as the specification words it\<close>

text \<open>The populated variants of an event with their payloads, in the order Reset,
  UnsafeBlock, DerivationUpdate, ExhaustL1, ReplaceBlock, each at most once; and the
  handler each of them stands for.\<close>

datatype handler_call =
    HReset string
  | HUnsafeBlock BlockRef
  | HDerivationUpdate DerivedBlockRefPair
  | HExhaustL1 DerivedBlockRefPair
  | HReplaceBlock BlockReplacement

definition populated :: "ManagedEvent \<Rightarrow> handler_call list" where
  "populated ev =
     (case ev_Reset ev of Some x \<Rightarrow> [HReset x] | None \<Rightarrow> [])
     @ (case ev_UnsafeBlock ev of Some x \<Rightarrow> [HUnsafeBlock x] | None \<Rightarrow> [])
     @ (case ev_DerivationUpdate ev of Some x \<Rightarrow> [HDerivationUpdate x] | None \<Rightarrow> [])
     @ (case ev_ExhaustL1 ev of Some x \<Rightarrow> [HExhaustL1 x] | None \<Rightarrow> [])
     @ (case ev_ReplaceBlock ev of Some x \<Rightarrow> [HReplaceBlock x] | None \<Rightarrow> [])"

fun fire :: "'w ManagedNode \<Rightarrow> handler_call \<Rightarrow> 'w state \<Rightarrow> 'w state" where
  "fire m (HReset x) st = onResetEvent m x st"
| "fire m (HUnsafeBlock x) st = onUnsafeBlock m x st"
| "fire m (HDerivationUpdate x) st = onDerivationUpdate m x st"
| "fire m (HExhaustL1 x) st = onExhaustL1Event m x st"
| "fire m (HReplaceBlock x) st = onReplaceBlock m x st"

text \<open>The state after \<open>n\<close> rounds of pulling an event and dispatching it, when each of
  the \<open>n\<close> pulls succeeds.\<close>

fun dispatched :: "'w ManagedNode \<Rightarrow> nat \<Rightarrow> 'w state \<Rightarrow> 'w state option" where
  "dispatched m 0 st = Some st"
| "dispatched m (Suc n) st =
     (case PullEvent m st of
        ((ev, None), st1) \<Rightarrow> dispatched m n (onNodeEvent m ev st1)
      | ((ev, Some err), st1) \<Rightarrow> None)"

text \<open>The state after \<open>j\<close> rounds of the walk-back from \<open>currentBlock\<close>, when each of the
  \<open>j\<close> rounds reads the oracle with success and has its reset rejected with a walkable
  error: the rounds after which the walk goes on.\<close>

fun walked ::
  "'w ManagedNode \<Rightarrow> BlockID \<Rightarrow> BlockID \<Rightarrow> uint64 \<Rightarrow> nat \<Rightarrow> 'w state \<Rightarrow> 'w state option" where
  "walked m u f currentBlock 0 st = Some st"
| "walked m u f currentBlock (Suc j) st =
     (case SafeDerivedAt m \<lparr>Hash = 0, Number = currentBlock - 1\<rparr> st of
        ((safe, Some err), st1) \<Rightarrow> None
      | ((safe, None), st1) \<Rightarrow>
          (case Reset m u safe f (log LevelDebug ''Attempting reset'' st1) of
             (None, st2) \<Rightarrow> None
           | (Some e, st2) \<Rightarrow>
               if walkable e then walked m u f (currentBlock - 1) j st2 else None))"

subsection \<open>Scenarios\<close>

text \<open>A node for the concrete scenarios. Its world is the queue of events the sync
  target has pending; every oracle read succeeds, the safe block derived at a block has
  that block's number, resets and L1 blocks are accepted.\<close>

definition base_node :: "ManagedEvent option list ManagedNode" where
  "base_node =
     \<lparr>chainID = 10,
      backend_LocalSafe = (\<lambda>w c. ((\<lparr>DerivedFrom = \<lparr>Hash = 1, Number = 7\<rparr>,
                                     Derived = \<lparr>Hash = 2, Number = 40\<rparr>\<rparr>, None), w)),
      backend_LocalUnsafe = (\<lambda>w c. ((\<lparr>Hash = 3, Number = 50\<rparr>, None), w)),
      backend_CrossSafe = (\<lambda>w c. ((\<lparr>DerivedFrom = \<lparr>Hash = 4, Number = 6\<rparr>,
                                     Derived = \<lparr>Hash = 5, Number = 30\<rparr>\<rparr>, None), w)),
      backend_SafeDerivedAt =
        (\<lambda>w c derivedFrom. ((\<lparr>Hash = 0, Number = Number derivedFrom\<rparr>, None), w)),
      backend_Finalized = (\<lambda>w c. ((\<lparr>Hash = 6, Number = 20\<rparr>, None), w)),
      backend_L1BlockRefByNumber =
        (\<lambda>w n. ((\<lparr>Hash = 7, Number = n, ParentHash = 8, Time = 9\<rparr>, None), w)),
      Node_Reset = (\<lambda>w u s f. (None, w)),
      Node_ProvideL1 = (\<lambda>w r. (None, w)),
      Node_PullEvent = (\<lambda>w. case w of [] \<Rightarrow> ((None, Some EOF), [])
                                     | ev # rest \<Rightarrow> ((ev, None), rest))\<rparr>"

text \<open>The sync target that rejects every reset with "conflicting block" except the one
  to the safe block of number \<open>C\<close>.\<close>

definition conflict_node :: "uint64 \<Rightarrow> ManagedEvent option list ManagedNode" where
  "conflict_node C =
     base_node\<lparr>Node_Reset :=
       (\<lambda>w u s f. (if Number s = C then None
                    else Some (JsonError conflictingBlockRPCErrCode ''conflicting block''), w))\<rparr>"

text \<open>The sync target that rejects every reset with "conflicting block".\<close>

definition rejecting_node :: "ManagedEvent option list ManagedNode" where
  "rejecting_node =
     base_node\<lparr>Node_Reset :=
       (\<lambda>w u s f. (Some (JsonError conflictingBlockRPCErrCode ''conflicting block''), w))\<rparr>"

text \<open>The oracle that has no safe block at the number \<open>C\<close>, and the sync target that
  answers the reset at the number \<open>C\<close> with an error that is not walkable; every other
  reset is rejected with "conflicting block".\<close>

definition gap_node :: "uint64 \<Rightarrow> ManagedEvent option list ManagedNode" where
  "gap_node C =
     rejecting_node\<lparr>backend_SafeDerivedAt :=
       (\<lambda>w c derivedFrom.
          (if Number derivedFrom = C then (BlockID_zero, Some NotFound)
           else (\<lparr>Hash = 0, Number = Number derivedFrom\<rparr>, None), w))\<rparr>"

definition busy_node :: "uint64 \<Rightarrow> ManagedEvent option list ManagedNode" where
  "busy_node C =
     base_node\<lparr>Node_Reset :=
       (\<lambda>w u s f. (if Number s = C then Some (ErrorString ''engine busy'')
                    else Some (JsonError conflictingBlockRPCErrCode ''conflicting block''), w))\<rparr>"

text \<open>An L1 reference of a given number, and blocks of a given number.\<close>

definition l1_at :: "uint64 \<Rightarrow> BlockRef" where
  "l1_at n = \<lparr>Hash = 11, Number = n, ParentHash = 12, Time = 13\<rparr>"

definition block_at :: "uint64 \<Rightarrow> BlockID" where
  "block_at n = \<lparr>Hash = 0, Number = n\<rparr>"

text \<open>The effects of one round of the walk-back on a scenario node, at the number \<open>n\<close>.\<close>

definition scenario_round :: "BlockID \<Rightarrow> BlockID \<Rightarrow> uint64 \<Rightarrow> effect list" where
  "scenario_round u f n =
     [CallSafeDerivedAt 10 (block_at n), Log LevelDebug ''Attempting reset'',
      CallReset u (block_at n) f]"

text \<open>The event with no variant populated.\<close>

definition empty_event :: ManagedEvent where
  "empty_event =
     \<lparr>ev_Reset = None, ev_UnsafeBlock = None, ev_DerivationUpdate = None,
      ev_ExhaustL1 = None, ev_ReplaceBlock = None\<rparr>"

section \<open>Properties\<close>

lemmas node_defs = call_def log_def emit_def LocalSafe_def LocalUnsafe_def CrossSafe_def
  SafeDerivedAt_def Finalized_def L1BlockRefByNumber_def Reset_def ProvideL1_def PullEvent_def

subsection \<open>Error kinds\<close>

text \<open>The sentinels are leaves of an error chain, so a chain is of one kind at most.\<close>

lemma chain_Is_leaf:
  "chain_Is e ErrConflict \<Longrightarrow> \<not> chain_Is e ErrFuture \<and> \<not> chain_Is e ErrOutOfOrder"
  "chain_Is e ErrFuture \<Longrightarrow> \<not> chain_Is e ErrConflict \<and> \<not> chain_Is e ErrOutOfOrder"
  "chain_Is e ErrOutOfOrder \<Longrightarrow> \<not> chain_Is e ErrConflict \<and> \<not> chain_Is e ErrFuture"
  by (induction e ErrConflict rule: chain_Is.induct; simp)+

lemma errors_Is_kinds:
  "errors_Is e ErrFuture \<Longrightarrow> \<not> errors_Is e ErrConflict"
  "errors_Is e ErrOutOfOrder \<Longrightarrow> \<not> errors_Is e ErrConflict \<and> \<not> errors_Is e ErrFuture"
  by (auto simp: errors_Is_def dest: chain_Is_leaf split: option.splits)

subsection \<open>resolveConflict: failures before the walk-back\<close>

text \<open>
  Claim C3. When the first reset attempt, at the safe block the oracle derives for the
  given L1 reference, fails with an error that is not an RPC error of code -39001 or
  -39002, \<open>resolveConflict\<close> returns that error (wrapped) at once: the whole trace is the
  oracle read, the log line of the attempt and the one reset call. When the first oracle
  read fails, it returns an error and the trace is that read alone: no reset is attempted.
\<close>

theorem resolveConflict_short_circuits:
  "(backend_SafeDerivedAt m w (chainID m) (ID l1Ref) = ((s, None), w1) \<longrightarrow>
    Node_Reset m w1 u s f = (Some err, w2) \<longrightarrow> \<not> walkable err \<longrightarrow>
      resolveConflict m l1Ref u f (w, tr) =
        (Some (Errorf ErrorDuringReset (Some err)),
         (w2, tr @ [CallSafeDerivedAt (chainID m) (ID l1Ref),
                    Log LevelDebug ''Attempting reset'', CallReset u s f])))
   \<and> (backend_SafeDerivedAt m w (chainID m) (ID l1Ref) = ((s, Some err), w1) \<longrightarrow>
      resolveConflict m l1Ref u f (w, tr) =
        (Some (Errorf (FailedRetrieveSafeFor (ID l1Ref)) (Some err)),
         (w1, tr @ [CallSafeDerivedAt (chainID m) (ID l1Ref)])))"
  by (simp add: resolveConflict_def tryReset_def node_defs)

theorem resolveConflict_short_circuits_witness:
  "\<not> walkable (JsonError (- 32000) ''engine busy'')
   \<and> resolveConflict
       (base_node\<lparr>Node_Reset := (\<lambda>w u s f. (Some (JsonError (- 32000) ''engine busy''), w))\<rparr>)
       (l1_at 150) (block_at 160) (block_at 100) ([], []) =
     (Some (Errorf ErrorDuringReset (Some (JsonError (- 32000) ''engine busy''))),
      ([], [CallSafeDerivedAt 10 (ID (l1_at 150)), Log LevelDebug ''Attempting reset'',
            CallReset (block_at 160) (block_at 150) (block_at 100)]))
   \<and> resolveConflict
       (base_node\<lparr>backend_SafeDerivedAt := (\<lambda>w c d. ((BlockID_zero, Some NotFound), w))\<rparr>)
       (l1_at 150) (block_at 160) (block_at 100) ([], []) =
     (Some (Errorf (FailedRetrieveSafeFor (ID (l1_at 150))) (Some NotFound)),
      ([], [CallSafeDerivedAt 10 (ID (l1_at 150))]))"
  using
    resolveConflict_short_circuits
      [where m = "base_node\<lparr>Node_Reset := (\<lambda>w u s f. (Some (JsonError (- 32000) ''engine busy''), w))\<rparr>"
         and w = "[]" and ?l1Ref = "l1_at 150" and s = "block_at 150" and ?w1.0 = "[]"
         and u = "block_at 160" and f = "block_at 100"
         and err = "JsonError (- 32000) ''engine busy''" and ?w2.0 = "[]" and tr = "[]"]
    resolveConflict_short_circuits
      [where m = "base_node\<lparr>backend_SafeDerivedAt := (\<lambda>w c d. ((BlockID_zero, Some NotFound), w))\<rparr>"
         and w = "[]" and ?l1Ref = "l1_at 150" and s = BlockID_zero and ?w1.0 = "[]"
         and u = "block_at 160" and f = "block_at 100" and err = NotFound and tr = "[]"]
  by (simp add: base_node_def l1_at_def block_at_def ID_def walkable_def
      blockNotFoundRPCErrCode_def conflictingBlockRPCErrCode_def)

subsection \<open>resetSignal\<close>

text \<open>The Future branch passes to Reset the \<open>Derived\<close> block of whatever pair the
  local-safe read returned, with or without an error.\<close>

lemma resetSignal_Future_reset_argument:
  "backend_LocalUnsafe m w (chainID m) = ((u, None), w1) \<Longrightarrow>
   backend_Finalized m w1 (chainID m) = ((f, None), w2) \<Longrightarrow>
   backend_LocalSafe m w2 (chainID m) = ((s, err), w3) \<Longrightarrow>
   errors_Is errSignal ErrFuture \<Longrightarrow>
   reset_safes (snd (resetSignal m errSignal l1Ref (w, []))) = [Derived s]"
  by (auto simp: resetSignal_def node_defs errors_Is_kinds Let_def
      split: prod.splits option.splits)

text \<open>
  Claim C4. Let the local-unsafe and finalized reads succeed and the local-safe read fail
  (returning, as a failing Go call does, the zero value with its error). For an
  OutOfOrder signal \<open>resetSignal\<close> stops after logging the failure: the trace has no reset
  call. For a Future signal it logs the failure and still calls Reset, with the zero
  block as the safe reference.
\<close>

theorem resetSignal_local_safe_read_fails:
  "backend_LocalUnsafe m w (chainID m) = ((u, None), w1) \<Longrightarrow>
   backend_Finalized m w1 (chainID m) = ((f, None), w2) \<Longrightarrow>
   backend_LocalSafe m w2 (chainID m) = ((DerivedIDPair_zero, Some err), w3) \<Longrightarrow>
   (errors_Is errSignal ErrOutOfOrder \<longrightarrow>
      resetSignal m errSignal l1Ref (w, tr) =
        (w3, tr @ [CallLocalUnsafe (chainID m), CallFinalized (chainID m),
                   CallLocalSafe (chainID m), Log LevelWarn ''Failed to retrieve local-safe'']))
   \<and> (errors_Is errSignal ErrFuture \<longrightarrow>
        resetSignal m errSignal l1Ref (w, tr) =
          (snd (Node_Reset m w3 u BlockID_zero f),
           tr @ [CallLocalUnsafe (chainID m), CallFinalized (chainID m),
                 CallLocalSafe (chainID m), Log LevelWarn ''Failed to retrieve local-safe'',
                 Log LevelDebug ''Node detected future block, resetting'',
                 CallReset u BlockID_zero f]
              @ (case fst (Node_Reset m w3 u BlockID_zero f) of
                   None \<Rightarrow> [] | Some e \<Rightarrow> [Log LevelWarn ''Node failed to reset''])))"
  by (auto simp: resetSignal_def node_defs errors_Is_kinds DerivedIDPair_zero_def Let_def
      split: prod.splits option.splits)

theorem resetSignal_local_safe_read_fails_witness:
  "errors_Is (Some ErrOutOfOrder) ErrOutOfOrder \<and> errors_Is (Some ErrFuture) ErrFuture \<and>
   resetSignal (base_node\<lparr>backend_LocalSafe := (\<lambda>w c. ((DerivedIDPair_zero, Some NotFound), w))\<rparr>)
       (Some ErrOutOfOrder) BlockRef_zero ([], []) =
     ([], [CallLocalUnsafe 10, CallFinalized 10, CallLocalSafe 10,
           Log LevelWarn ''Failed to retrieve local-safe'']) \<and>
   resetSignal (base_node\<lparr>backend_LocalSafe := (\<lambda>w c. ((DerivedIDPair_zero, Some NotFound), w))\<rparr>)
       (Some ErrFuture) BlockRef_zero ([], []) =
     ([], [CallLocalUnsafe 10, CallFinalized 10, CallLocalSafe 10,
           Log LevelWarn ''Failed to retrieve local-safe'',
           Log LevelDebug ''Node detected future block, resetting'',
           CallReset \<lparr>Hash = 3, Number = 50\<rparr> BlockID_zero \<lparr>Hash = 6, Number = 20\<rparr>])"
  using
    resetSignal_local_safe_read_fails
      [where m = "base_node\<lparr>backend_LocalSafe := (\<lambda>w c. ((DerivedIDPair_zero, Some NotFound), w))\<rparr>"
         and w = "[]" and u = "\<lparr>Hash = 3, Number = 50\<rparr>" and ?w1.0 = "[]"
         and f = "\<lparr>Hash = 6, Number = 20\<rparr>" and ?w2.0 = "[]" and err = NotFound
         and ?w3.0 = "[]" and errSignal = "Some ErrOutOfOrder" and ?l1Ref = BlockRef_zero
         and tr = "[]"]
    resetSignal_local_safe_read_fails
      [where m = "base_node\<lparr>backend_LocalSafe := (\<lambda>w c. ((DerivedIDPair_zero, Some NotFound), w))\<rparr>"
         and w = "[]" and u = "\<lparr>Hash = 3, Number = 50\<rparr>" and ?w1.0 = "[]"
         and f = "\<lparr>Hash = 6, Number = 20\<rparr>" and ?w2.0 = "[]" and err = NotFound
         and ?w3.0 = "[]" and errSignal = "Some ErrFuture" and ?l1Ref = BlockRef_zero
         and tr = "[]"]
  by (simp add: base_node_def errors_Is_def)

text \<open>
  Claim C5. When the local-unsafe read fails, or the finalized read after it, \<open>resetSignal\<close>
  logs and returns: the trace holds those reads and the log line, so neither the conflict
  resolver (whose first effect is an oracle read of its own) nor a reset was run. When
  both reads succeed and the signal is none of Conflict, Future and OutOfOrder, nothing
  follows the two reads.
\<close>

theorem resetSignal_aborts_or_ignores:
  "(backend_LocalUnsafe m w (chainID m) = ((u, Some err), w1) \<longrightarrow>
      resetSignal m errSignal l1Ref (w, tr) =
        (w1, tr @ [CallLocalUnsafe (chainID m), Log LevelWarn ''Failed to retrieve local-unsafe'']))
   \<and> (backend_LocalUnsafe m w (chainID m) = ((u, None), w1) \<longrightarrow>
      backend_Finalized m w1 (chainID m) = ((f, Some err), w2) \<longrightarrow>
      resetSignal m errSignal l1Ref (w, tr) =
        (w2, tr @ [CallLocalUnsafe (chainID m), CallFinalized (chainID m),
                   Log LevelWarn ''Failed to retrieve finalized'']))
   \<and> (backend_LocalUnsafe m w (chainID m) = ((u, None), w1) \<longrightarrow>
      backend_Finalized m w1 (chainID m) = ((f, None), w2) \<longrightarrow>
      \<not> errors_Is errSignal ErrConflict \<longrightarrow> \<not> errors_Is errSignal ErrFuture \<longrightarrow>
      \<not> errors_Is errSignal ErrOutOfOrder \<longrightarrow>
      resetSignal m errSignal l1Ref (w, tr) =
        (w2, tr @ [CallLocalUnsafe (chainID m), CallFinalized (chainID m)]))"
  by (simp add: resetSignal_def node_defs)

theorem resetSignal_aborts_or_ignores_witness:
  "resetSignal (base_node\<lparr>backend_LocalUnsafe := (\<lambda>w c. ((BlockID_zero, Some NotFound), w))\<rparr>)
       (Some ErrConflict) (l1_at 150) ([], []) =
     ([], [CallLocalUnsafe 10, Log LevelWarn ''Failed to retrieve local-unsafe''])
   \<and> resetSignal (base_node\<lparr>backend_Finalized := (\<lambda>w c. ((BlockID_zero, Some NotFound), w))\<rparr>)
       (Some ErrConflict) (l1_at 150) ([], []) =
     ([], [CallLocalUnsafe 10, CallFinalized 10, Log LevelWarn ''Failed to retrieve finalized''])
   \<and> \<not> errors_Is (Some NotFound) ErrConflict \<and> \<not> errors_Is (Some NotFound) ErrFuture
   \<and> \<not> errors_Is (Some NotFound) ErrOutOfOrder
   \<and> resetSignal base_node (Some NotFound) (l1_at 150) ([], []) =
     ([], [CallLocalUnsafe 10, CallFinalized 10])"
  using
    resetSignal_aborts_or_ignores
      [where m = "base_node\<lparr>backend_LocalUnsafe := (\<lambda>w c. ((BlockID_zero, Some NotFound), w))\<rparr>"
         and w = "[]" and u = BlockID_zero and err = NotFound and ?w1.0 = "[]"
         and errSignal = "Some ErrConflict" and ?l1Ref = "l1_at 150" and tr = "[]"]
    resetSignal_aborts_or_ignores
      [where m = "base_node\<lparr>backend_Finalized := (\<lambda>w c. ((BlockID_zero, Some NotFound), w))\<rparr>"
         and w = "[]" and u = "\<lparr>Hash = 3, Number = 50\<rparr>" and ?w1.0 = "[]"
         and f = BlockID_zero and err = NotFound and ?w2.0 = "[]"
         and errSignal = "Some ErrConflict" and ?l1Ref = "l1_at 150" and tr = "[]"]
    resetSignal_aborts_or_ignores
      [where m = base_node
         and w = "[]" and u = "\<lparr>Hash = 3, Number = 50\<rparr>" and ?w1.0 = "[]"
         and f = "\<lparr>Hash = 6, Number = 20\<rparr>" and ?w2.0 = "[]"
         and errSignal = "Some NotFound" and ?l1Ref = "l1_at 150" and tr = "[]"]
  by (simp add: base_node_def errors_Is_def)

subsection \<open>sendReset\<close>

text \<open>
  Claim C6. \<open>sendReset\<close> reads local-unsafe, cross-safe and finalized, in this order. When
  the local-unsafe or the cross-safe read fails, or the finalized read fails with an error
  that is not a "future" error, it logs and returns with no reset call. When the finalized
  read fails with a "future" error, one reset is issued with the block of number 0 as
  finalized. When the three reads succeed, one reset is issued with
  (local-unsafe, cross-safe.Derived, finalized). A failed reset is logged only.
\<close>

theorem sendReset_cases:
  "(backend_LocalUnsafe m w (chainID m) = ((u, Some err), w1) \<longrightarrow>
      sendReset m (w, tr) =
        (w1, tr @ [CallLocalUnsafe (chainID m), Log LevelWarn ''Failed to retrieve local-unsafe'']))
   \<and> (backend_LocalUnsafe m w (chainID m) = ((u, None), w1) \<longrightarrow>
      backend_CrossSafe m w1 (chainID m) = ((s, Some err), w2) \<longrightarrow>
      sendReset m (w, tr) =
        (w2, tr @ [CallLocalUnsafe (chainID m), CallCrossSafe (chainID m),
                   Log LevelWarn ''Failed to retrieve cross-safe'']))
   \<and> (backend_LocalUnsafe m w (chainID m) = ((u, None), w1) \<longrightarrow>
      backend_CrossSafe m w1 (chainID m) = ((s, None), w2) \<longrightarrow>
      backend_Finalized m w2 (chainID m) = ((f, Some err), w3) \<longrightarrow>
      \<not> errors_Is (Some err) ErrFuture \<longrightarrow>
      sendReset m (w, tr) =
        (w3, tr @ [CallLocalUnsafe (chainID m), CallCrossSafe (chainID m),
                   CallFinalized (chainID m), Log LevelWarn ''Failed to retrieve finalized'']))
   \<and> (backend_LocalUnsafe m w (chainID m) = ((u, None), w1) \<longrightarrow>
      backend_CrossSafe m w1 (chainID m) = ((s, None), w2) \<longrightarrow>
      backend_Finalized m w2 (chainID m) = ((f, Some err), w3) \<longrightarrow>
      errors_Is (Some err) ErrFuture \<longrightarrow>
      sendReset m (w, tr) =
        (snd (Node_Reset m w3 u (Derived s) \<lparr>Hash = 0, Number = 0\<rparr>),
         tr @ [CallLocalUnsafe (chainID m), CallCrossSafe (chainID m), CallFinalized (chainID m),
               CallReset u (Derived s) \<lparr>Hash = 0, Number = 0\<rparr>]
            @ (case fst (Node_Reset m w3 u (Derived s) \<lparr>Hash = 0, Number = 0\<rparr>) of
                 None \<Rightarrow> [] | Some e \<Rightarrow> [Log LevelWarn ''Node failed to reset''])))
   \<and> (backend_LocalUnsafe m w (chainID m) = ((u, None), w1) \<longrightarrow>
      backend_CrossSafe m w1 (chainID m) = ((s, None), w2) \<longrightarrow>
      backend_Finalized m w2 (chainID m) = ((f, None), w3) \<longrightarrow>
      sendReset m (w, tr) =
        (snd (Node_Reset m w3 u (Derived s) f),
         tr @ [CallLocalUnsafe (chainID m), CallCrossSafe (chainID m), CallFinalized (chainID m),
               CallReset u (Derived s) f]
            @ (case fst (Node_Reset m w3 u (Derived s) f) of
                 None \<Rightarrow> [] | Some e \<Rightarrow> [Log LevelWarn ''Node failed to reset''])))"
  by (auto simp: sendReset_def node_defs errors_Is_def Let_def split: prod.splits option.splits)

theorem sendReset_cases_witness:
  "sendReset (base_node\<lparr>backend_LocalUnsafe := (\<lambda>w c. ((BlockID_zero, Some NotFound), w))\<rparr>)
       ([], []) =
     ([], [CallLocalUnsafe 10, Log LevelWarn ''Failed to retrieve local-unsafe''])
   \<and> sendReset (base_node\<lparr>backend_CrossSafe := (\<lambda>w c. ((DerivedIDPair_zero, Some NotFound), w))\<rparr>)
       ([], []) =
     ([], [CallLocalUnsafe 10, CallCrossSafe 10, Log LevelWarn ''Failed to retrieve cross-safe''])
   \<and> \<not> errors_Is (Some NotFound) ErrFuture
   \<and> sendReset (base_node\<lparr>backend_Finalized := (\<lambda>w c. ((BlockID_zero, Some NotFound), w))\<rparr>)
       ([], []) =
     ([], [CallLocalUnsafe 10, CallCrossSafe 10, CallFinalized 10,
           Log LevelWarn ''Failed to retrieve finalized''])
   \<and> errors_Is (Some (Errorf (Text ''finalized'') (Some ErrFuture))) ErrFuture
   \<and> sendReset (base_node\<lparr>backend_Finalized :=
         (\<lambda>w c. ((\<lparr>Hash = 6, Number = 20\<rparr>, Some (Errorf (Text ''finalized'') (Some ErrFuture))), w))\<rparr>)
       ([], []) =
     ([], [CallLocalUnsafe 10, CallCrossSafe 10, CallFinalized 10,
           CallReset \<lparr>Hash = 3, Number = 50\<rparr> \<lparr>Hash = 5, Number = 30\<rparr> \<lparr>Hash = 0, Number = 0\<rparr>])
   \<and> sendReset base_node ([], []) =
     ([], [CallLocalUnsafe 10, CallCrossSafe 10, CallFinalized 10,
           CallReset \<lparr>Hash = 3, Number = 50\<rparr> \<lparr>Hash = 5, Number = 30\<rparr> \<lparr>Hash = 6, Number = 20\<rparr>])"
  using
    sendReset_cases
      [where m = "base_node\<lparr>backend_LocalUnsafe := (\<lambda>w c. ((BlockID_zero, Some NotFound), w))\<rparr>"
         and w = "[]" and u = BlockID_zero and err = NotFound and ?w1.0 = "[]" and tr = "[]"]
    sendReset_cases
      [where m = "base_node\<lparr>backend_CrossSafe := (\<lambda>w c. ((DerivedIDPair_zero, Some NotFound), w))\<rparr>"
         and w = "[]" and u = "\<lparr>Hash = 3, Number = 50\<rparr>" and ?w1.0 = "[]"
         and s = DerivedIDPair_zero and err = NotFound and ?w2.0 = "[]" and tr = "[]"]
    sendReset_cases
      [where m = "base_node\<lparr>backend_Finalized := (\<lambda>w c. ((BlockID_zero, Some NotFound), w))\<rparr>"
         and w = "[]" and u = "\<lparr>Hash = 3, Number = 50\<rparr>" and ?w1.0 = "[]"
         and s = "\<lparr>DerivedFrom = \<lparr>Hash = 4, Number = 6\<rparr>, Derived = \<lparr>Hash = 5, Number = 30\<rparr>\<rparr>"
         and ?w2.0 = "[]" and f = BlockID_zero and err = NotFound and ?w3.0 = "[]" and tr = "[]"]
    sendReset_cases
      [where m = "base_node\<lparr>backend_Finalized :=
           (\<lambda>w c. ((\<lparr>Hash = 6, Number = 20\<rparr>, Some (Errorf (Text ''finalized'') (Some ErrFuture))), w))\<rparr>"
         and w = "[]" and u = "\<lparr>Hash = 3, Number = 50\<rparr>" and ?w1.0 = "[]"
         and s = "\<lparr>DerivedFrom = \<lparr>Hash = 4, Number = 6\<rparr>, Derived = \<lparr>Hash = 5, Number = 30\<rparr>\<rparr>"
         and ?w2.0 = "[]" and f = "\<lparr>Hash = 6, Number = 20\<rparr>"
         and err = "Errorf (Text ''finalized'') (Some ErrFuture)" and ?w3.0 = "[]" and tr = "[]"]
    sendReset_cases
      [where m = base_node
         and w = "[]" and u = "\<lparr>Hash = 3, Number = 50\<rparr>" and ?w1.0 = "[]"
         and s = "\<lparr>DerivedFrom = \<lparr>Hash = 4, Number = 6\<rparr>, Derived = \<lparr>Hash = 5, Number = 30\<rparr>\<rparr>"
         and ?w2.0 = "[]" and f = "\<lparr>Hash = 6, Number = 20\<rparr>" and ?w3.0 = "[]" and tr = "[]"]
  by (simp add: base_node_def errors_Is_def)

subsection \<open>onExhaustL1Event\<close>

text \<open>
  Claim C9. On an ExhaustL1 event with the completed pair \<open>completed\<close> the node asks the
  oracle for the L1 block of number \<open>completed.DerivedFrom.Number + 1\<close>. When the read
  fails with a "not found" error, the failure is logged at debug level and nothing else
  happens: no ProvideL1 call. Any other failure is logged as an error, again with no
  ProvideL1 call. When the read succeeds, ProvideL1 is called once, with the block read.
\<close>

theorem onExhaustL1Event_cases:
  "(backend_L1BlockRefByNumber m w (Number (DerivedFrom completed) + 1) = ((nextL1, Some err), w1) \<longrightarrow>
      errors_Is (Some err) NotFound \<longrightarrow>
      onExhaustL1Event m completed (w, tr) =
        (w1, tr @ [Log LevelInfo ''Node completed syncing'',
                   CallL1BlockRefByNumber (Number (DerivedFrom completed) + 1),
                   Log LevelDebug ''Next L1 block is not yet available'']))
   \<and> (backend_L1BlockRefByNumber m w (Number (DerivedFrom completed) + 1) = ((nextL1, Some err), w1) \<longrightarrow>
      \<not> errors_Is (Some err) NotFound \<longrightarrow>
      onExhaustL1Event m completed (w, tr) =
        (w1, tr @ [Log LevelInfo ''Node completed syncing'',
                   CallL1BlockRefByNumber (Number (DerivedFrom completed) + 1),
                   Log LevelError ''Failed to retrieve next L1 block for node'']))
   \<and> (backend_L1BlockRefByNumber m w (Number (DerivedFrom completed) + 1) = ((nextL1, None), w1) \<longrightarrow>
      onExhaustL1Event m completed (w, tr) =
        (snd (Node_ProvideL1 m w1 nextL1),
         tr @ [Log LevelInfo ''Node completed syncing'',
               CallL1BlockRefByNumber (Number (DerivedFrom completed) + 1),
               CallProvideL1 nextL1]
            @ (case fst (Node_ProvideL1 m w1 nextL1) of
                 None \<Rightarrow> []
               | Some e \<Rightarrow> [Log LevelWarn ''Failed to provide next L1 block to node''])))"
  by (auto simp: onExhaustL1Event_def node_defs split: prod.splits option.splits)

theorem onExhaustL1Event_cases_witness:
  "errors_Is (Some NotFound) NotFound
   \<and> onExhaustL1Event
       (base_node\<lparr>backend_L1BlockRefByNumber := (\<lambda>w n. ((BlockRef_zero, Some NotFound), w))\<rparr>)
       \<lparr>DerivedFrom = l1_at 7, Derived = l1_at 40\<rparr> ([], []) =
     ([], [Log LevelInfo ''Node completed syncing'', CallL1BlockRefByNumber 8,
           Log LevelDebug ''Next L1 block is not yet available''])
   \<and> \<not> errors_Is (Some (ErrorString ''timeout'')) NotFound
   \<and> onExhaustL1Event
       (base_node\<lparr>backend_L1BlockRefByNumber :=
          (\<lambda>w n. ((BlockRef_zero, Some (ErrorString ''timeout'')), w))\<rparr>)
       \<lparr>DerivedFrom = l1_at 7, Derived = l1_at 40\<rparr> ([], []) =
     ([], [Log LevelInfo ''Node completed syncing'', CallL1BlockRefByNumber 8,
           Log LevelError ''Failed to retrieve next L1 block for node''])
   \<and> onExhaustL1Event base_node \<lparr>DerivedFrom = l1_at 7, Derived = l1_at 40\<rparr> ([], []) =
     ([], [Log LevelInfo ''Node completed syncing'', CallL1BlockRefByNumber 8,
           CallProvideL1 \<lparr>Hash = 7, Number = 8, ParentHash = 8, Time = 9\<rparr>])"
  using
    onExhaustL1Event_cases
      [where m = "base_node\<lparr>backend_L1BlockRefByNumber := (\<lambda>w n. ((BlockRef_zero, Some NotFound), w))\<rparr>"
         and w = "[]" and completed = "\<lparr>DerivedFrom = l1_at 7, Derived = l1_at 40\<rparr>"
         and ?nextL1.0 = BlockRef_zero and err = NotFound and ?w1.0 = "[]" and tr = "[]"]
    onExhaustL1Event_cases
      [where m = "base_node\<lparr>backend_L1BlockRefByNumber :=
           (\<lambda>w n. ((BlockRef_zero, Some (ErrorString ''timeout'')), w))\<rparr>"
         and w = "[]" and completed = "\<lparr>DerivedFrom = l1_at 7, Derived = l1_at 40\<rparr>"
         and ?nextL1.0 = BlockRef_zero and err = "ErrorString ''timeout''" and ?w1.0 = "[]"
         and tr = "[]"]
    onExhaustL1Event_cases
      [where m = base_node
         and w = "[]" and completed = "\<lparr>DerivedFrom = l1_at 7, Derived = l1_at 40\<rparr>"
         and ?nextL1.0 = "\<lparr>Hash = 7, Number = 8, ParentHash = 8, Time = 9\<rparr>" and ?w1.0 = "[]"
         and tr = "[]"]
  by (simp add: base_node_def errors_Is_def l1_at_def)

subsection \<open>onNodeEvent\<close>

text \<open>
  Claim C7, as the code has it. Dispatching an event that is not nil runs the handler of
  each populated variant once, in the order Reset, UnsafeBlock, DerivationUpdate,
  ExhaustL1, ReplaceBlock, and nothing else. An event with no variant populated therefore
  leaves the state as it is: no handler, no bus event, and no log line either. It is the
  nil event that is logged ("Received nil event") and discarded.
\<close>

theorem onNodeEvent_dispatch:
  "onNodeEvent m (Some ev) st = fold (fire m) (populated ev) st
   \<and> (ev_Reset ev = None \<and> ev_UnsafeBlock ev = None \<and> ev_DerivationUpdate ev = None
        \<and> ev_ExhaustL1 ev = None \<and> ev_ReplaceBlock ev = None \<longrightarrow>
      onNodeEvent m (Some ev) st = st)
   \<and> onNodeEvent m None (w, tr) = (w, tr @ [Log LevelWarn ''Received nil event''])"
  by (simp add: onNodeEvent_def populated_def log_def split: option.splits)

theorem onNodeEvent_dispatch_witness:
  "populated (empty_event\<lparr>ev_UnsafeBlock := Some (l1_at 51), ev_ExhaustL1 :=
        Some \<lparr>DerivedFrom = l1_at 7, Derived = l1_at 40\<rparr>\<rparr>) =
     [HUnsafeBlock (l1_at 51), HExhaustL1 \<lparr>DerivedFrom = l1_at 7, Derived = l1_at 40\<rparr>]
   \<and> onNodeEvent base_node
       (Some (empty_event\<lparr>ev_UnsafeBlock := Some (l1_at 51), ev_ExhaustL1 :=
          Some \<lparr>DerivedFrom = l1_at 7, Derived = l1_at 40\<rparr>\<rparr>)) ([], []) =
     ([], [Log LevelInfo ''Node has new unsafe block'',
           Emit (LocalUnsafeReceivedEvent 10 (l1_at 51)),
           Log LevelInfo ''Node completed syncing'', CallL1BlockRefByNumber 8,
           CallProvideL1 \<lparr>Hash = 7, Number = 8, ParentHash = 8, Time = 9\<rparr>])
   \<and> ev_Reset empty_event = None \<and> ev_UnsafeBlock empty_event = None
   \<and> ev_DerivationUpdate empty_event = None \<and> ev_ExhaustL1 empty_event = None
   \<and> ev_ReplaceBlock empty_event = None
   \<and> onNodeEvent base_node (Some empty_event) ([], []) = ([], [])
   \<and> onNodeEvent base_node None ([], []) = ([], [Log LevelWarn ''Received nil event''])"
  using
    onNodeEvent_dispatch
      [where m = base_node
         and ev = "empty_event\<lparr>ev_UnsafeBlock := Some (l1_at 51), ev_ExhaustL1 :=
           Some \<lparr>DerivedFrom = l1_at 7, Derived = l1_at 40\<rparr>\<rparr>"
         and st = "([], [])" and w = "[]" and tr = "[]"]
    onNodeEvent_dispatch [where m = base_node and ev = empty_event and st = "([], [])"]
  by (simp add: populated_def empty_event_def onUnsafeBlock_def onExhaustL1Event_def
      node_defs base_node_def l1_at_def)

text \<open>The claim as stated fails on the event with no variant populated: it leaves no
  log line.\<close>

theorem onNodeEvent_empty_event_not_logged:
  "snd (onNodeEvent base_node (Some empty_event) ([], [])) = []"
  by (simp add: onNodeEvent_def empty_event_def)

subsection \<open>PullEvents\<close>

lemma PullEvents_loop_rounds:
  "dispatched m n st = Some st' \<Longrightarrow> PullEvent m st' = ((ev, Some err), st'') \<Longrightarrow>
   PullEvents_loop m b st =
     Some ((b \<or> 0 < n, if errors_Is (Some err) EOF then None else Some err), st'')"
proof (induction n arbitrary: st b)
  case 0
  then show ?case
    by (subst PullEvents_loop.simps) simp
next
  case (Suc n)
  from Suc.prems(1) obtain ev0 st1 where
    pull: "PullEvent m st = ((ev0, None), st1)" and
    rest: "dispatched m n (onNodeEvent m ev0 st1) = Some st'"
    by (auto split: prod.splits option.splits)
  have "PullEvents_loop m b st = PullEvents_loop m True (onNodeEvent m ev0 st1)"
    by (subst PullEvents_loop.simps) (simp add: pull)
  also have "\<dots> = Some ((True \<or> 0 < n, if errors_Is (Some err) EOF then None else Some err), st'')"
    by (rule Suc.IH [OF rest Suc.prems(2)])
  finally show ?case by simp
qed

lemma PullEvents_loop_returns:
  "PullEvents_loop m b st = Some r \<Longrightarrow>
   \<exists>n st' ev err. dispatched m n st = Some st' \<and> PullEvent m st' = ((ev, Some err), snd r)
     \<and> fst r = (b \<or> 0 < n, if errors_Is (Some err) EOF then None else Some err)"
proof (induction rule: PullEvents_loop.raw_induct [rotated 1, consumes 1])
  case (1 loop m b st r)
  obtain ev err st1 where pull: "PullEvent m st = ((ev, err), st1)"
    by (metis surj_pair)
  show ?case
  proof (cases err)
    case None
    with 1(2) pull have "loop m True (onNodeEvent m ev st1) = Some r" by simp
    from 1(1) [OF this] obtain n st' ev' err' where
      "dispatched m n (onNodeEvent m ev st1) = Some st'"
      "PullEvent m st' = ((ev', Some err'), snd r)"
      "fst r = (True \<or> 0 < n, if errors_Is (Some err') EOF then None else Some err')"
      by blast
    then show ?thesis
      using pull None
      by (intro exI [of _ "Suc n"] exI [of _ st'] exI [of _ ev'] exI [of _ err']) simp
  next
    case (Some e)
    with 1(2) pull show ?thesis
      by (intro exI [of _ 0] exI [of _ st] exI [of _ ev] exI [of _ e]) (auto split: if_splits)
  qed
qed

text \<open>
  Claim C8. \<open>PullEvents\<close> pulls one event at a time and dispatches it, until a pull fails.
  When the first \<open>n\<close> pulls succeed and the next one fails with \<open>err\<close>, it returns: the
  error is nil when \<open>err\<close> is the end of the stream and \<open>err\<close> otherwise (a cancelled
  context is such an error), and \<open>pulledAny\<close> is true exactly when \<open>n\<close> is not 0. Every
  call that returns is of this shape.
\<close>

theorem PullEvents_result:
  "(dispatched m n st = Some st' \<longrightarrow> PullEvent m st' = ((ev, Some err), st'') \<longrightarrow>
      PullEvents m st =
        Some ((0 < n, if errors_Is (Some err) EOF then None else Some err), st''))
   \<and> (PullEvents m st = Some r \<longrightarrow>
        (\<exists>k st1 ev1 err1. dispatched m k st = Some st1
           \<and> PullEvent m st1 = ((ev1, Some err1), snd r)
           \<and> fst r = (0 < k, if errors_Is (Some err1) EOF then None else Some err1)))"
  using PullEvents_loop_rounds [of m n st st' ev err st'' False]
    PullEvents_loop_returns [of m False st r]
  by (simp add: PullEvents_def)

theorem PullEvents_result_witness:
  "dispatched base_node 2 ([Some (empty_event\<lparr>ev_UnsafeBlock := Some (l1_at 51)\<rparr>), None], []) =
     Some ([], [CallPullEvent, Log LevelInfo ''Node has new unsafe block'',
                Emit (LocalUnsafeReceivedEvent 10 (l1_at 51)),
                CallPullEvent, Log LevelWarn ''Received nil event''])
   \<and> PullEvent base_node
        ([], [CallPullEvent, Log LevelInfo ''Node has new unsafe block'',
              Emit (LocalUnsafeReceivedEvent 10 (l1_at 51)),
              CallPullEvent, Log LevelWarn ''Received nil event'']) =
      ((None, Some EOF),
       ([], [CallPullEvent, Log LevelInfo ''Node has new unsafe block'',
             Emit (LocalUnsafeReceivedEvent 10 (l1_at 51)),
             CallPullEvent, Log LevelWarn ''Received nil event'', CallPullEvent]))
   \<and> PullEvents base_node
        ([Some (empty_event\<lparr>ev_UnsafeBlock := Some (l1_at 51)\<rparr>), None], []) =
      Some ((True, None),
            ([], [CallPullEvent, Log LevelInfo ''Node has new unsafe block'',
                  Emit (LocalUnsafeReceivedEvent 10 (l1_at 51)),
                  CallPullEvent, Log LevelWarn ''Received nil event'', CallPullEvent]))
   \<and> (\<exists>k st1 ev1 err1.
         dispatched base_node k
           ([Some (empty_event\<lparr>ev_UnsafeBlock := Some (l1_at 51)\<rparr>), None], []) = Some st1
         \<and> PullEvent base_node st1 =
             ((ev1, Some err1),
              ([], [CallPullEvent, Log LevelInfo ''Node has new unsafe block'',
                    Emit (LocalUnsafeReceivedEvent 10 (l1_at 51)),
                    CallPullEvent, Log LevelWarn ''Received nil event'', CallPullEvent]))
         \<and> (True, None) = (0 < k, if errors_Is (Some err1) EOF then None else Some err1))"
proof -
  let ?st = "([Some (empty_event\<lparr>ev_UnsafeBlock := Some (l1_at 51)\<rparr>), None], [])
               :: ManagedEvent option list state"
  let ?tr = "[CallPullEvent, Log LevelInfo ''Node has new unsafe block'',
              Emit (LocalUnsafeReceivedEvent 10 (l1_at 51)),
              CallPullEvent, Log LevelWarn ''Received nil event'']"
  have rounds: "dispatched base_node 2 ?st = Some ([], ?tr)"
    by (simp add: numeral_2_eq_2 onNodeEvent_def onUnsafeBlock_def empty_event_def
        node_defs base_node_def)
  have last: "PullEvent base_node ([], ?tr) = ((None, Some EOF), ([], ?tr @ [CallPullEvent]))"
    by (simp add: node_defs base_node_def)
  have eof: "errors_Is (Some EOF) EOF"
    by (simp add: errors_Is_def)
  have res: "PullEvents base_node ?st = Some ((True, None), ([], ?tr @ [CallPullEvent]))"
    using PullEvents_result
      [where m = base_node and n = 2 and st = ?st and st' = "([], ?tr)" and ev = None
         and err = EOF and st'' = "([], ?tr @ [CallPullEvent])"]
      rounds last eof
    by simp
  from res
    PullEvents_result
      [where m = base_node and st = ?st and r = "((True, None), ([], ?tr @ [CallPullEvent]))"]
  have "\<exists>k st1 ev1 err1. dispatched base_node k ?st = Some st1
          \<and> PullEvent base_node st1 = ((ev1, Some err1), ([], ?tr @ [CallPullEvent]))
          \<and> (True, None) = (0 < k, if errors_Is (Some err1) EOF then None else Some err1)"
    by simp
  with rounds last res show ?thesis by simp
qed

subsection \<open>resolveConflict: the walk-back\<close>

lemma reset_safes_append: "reset_safes (xs @ ys) = reset_safes xs @ reset_safes ys"
  by (induction xs rule: reset_safes.induct) simp_all

lemma walkBack_step:
  assumes "i < maxWalkBackAttempts" and "\<not> cur - 1 \<le> Number f"
    and "backend_SafeDerivedAt m w (chainID m) \<lparr>Hash = 0, Number = cur - 1\<rparr> = ((safe, None), w1)"
    and "Node_Reset m w1 u safe f = (r, w2)"
  shows "walkBack m u f i cur (w, tr) =
     (case r of
        None \<Rightarrow> (None, (w2, tr @ [CallSafeDerivedAt (chainID m) \<lparr>Hash = 0, Number = cur - 1\<rparr>,
                                   Log LevelDebug ''Attempting reset'', CallReset u safe f]))
      | Some e \<Rightarrow>
          if walkable e then
            walkBack m u f (i + 1) (cur - 1)
              (w2, tr @ [CallSafeDerivedAt (chainID m) \<lparr>Hash = 0, Number = cur - 1\<rparr>,
                         Log LevelDebug ''Attempting reset'', CallReset u safe f])
          else (Some (Errorf (ErrorDuringResetAt (cur - 1)) (Some e)),
                (w2, tr @ [CallSafeDerivedAt (chainID m) \<lparr>Hash = 0, Number = cur - 1\<rparr>,
                           Log LevelDebug ''Attempting reset'', CallReset u safe f])))"
  using assms
  by (subst walkBack.simps)
    (simp add: tryReset_def node_defs notWalkable_def Let_def split: option.splits)

lemma walkBack_oracle_fails:
  assumes "i < maxWalkBackAttempts" and "\<not> cur - 1 \<le> Number f"
    and "backend_SafeDerivedAt m w (chainID m) \<lparr>Hash = 0, Number = cur - 1\<rparr> = ((safe, Some err), w1)"
  shows "walkBack m u f i cur (w, tr) =
     (Some (Errorf (FailedRetrieveSafeBlock (cur - 1)) (Some err)),
      (w1, tr @ [CallSafeDerivedAt (chainID m) \<lparr>Hash = 0, Number = cur - 1\<rparr>]))"
  using assms
  by (subst walkBack.simps) (simp add: node_defs Let_def)

lemma walkBack_finalized:
  "i < maxWalkBackAttempts \<Longrightarrow> cur - 1 \<le> Number f \<Longrightarrow>
   walkBack m u f i cur st = (Some (Errorf (ReachedFinalized (Number f)) None), st)"
  by (subst walkBack.simps) simp

lemma walkBack_exceeded:
  "\<not> i < maxWalkBackAttempts \<Longrightarrow>
   walkBack m u f i cur st = (Some (Errorf (ExceededMaxWalkBack maxWalkBackAttempts) None), st)"
  by (subst walkBack.simps) simp

lemma oracle_numberD:
  assumes "oracle_number m q n"
  obtains safe w1 where "backend_SafeDerivedAt m w (chainID m) q = ((safe, None), w1)"
    and "Number safe = n"
  using assms unfolding oracle_number_def
  by (metis prod.collapse)

lemma reset_acceptsD:
  assumes "reset_accepts m u safe f"
  obtains w2 where "Node_Reset m w u safe f = (None, w2)"
  using assms unfolding reset_accepts_def by (metis prod.collapse)

lemma reset_rejectsD:
  assumes "reset_rejects m u safe f"
  obtains e w2 where "Node_Reset m w u safe f = (Some e, w2)" and "walkable e"
proof -
  obtain r w2 where eq: "Node_Reset m w u safe f = (r, w2)" by (metis surj_pair)
  with assms have "case r of None \<Rightarrow> False | Some e \<Rightarrow> walkable e"
    unfolding reset_rejects_def by (metis fst_conv)
  then obtain e where "r = Some e" "walkable e" by (cases r) auto
  with eq that show ?thesis by blast
qed

lemma resolveConflict_first_rejected:
  assumes "backend_SafeDerivedAt m w (chainID m) (ID l1Ref) = ((s, None), w1)"
    and "Node_Reset m w1 u s f = (Some e, w2)" and "walkable e"
  shows "resolveConflict m l1Ref u f (w, tr) =
     walkBack m u f 0 (Number s)
       (w2, tr @ [CallSafeDerivedAt (chainID m) (ID l1Ref),
                  Log LevelDebug ''Attempting reset'', CallReset u s f])"
  using assms by (simp add: resolveConflict_def tryReset_def node_defs)

lemma resolveConflict_first_accepted:
  assumes "backend_SafeDerivedAt m w (chainID m) (ID l1Ref) = ((s, None), w1)"
    and "Node_Reset m w1 u s f = (None, w2)"
  shows "resolveConflict m l1Ref u f (w, tr) =
     (None, (w2, tr @ [CallSafeDerivedAt (chainID m) (ID l1Ref),
                       Log LevelDebug ''Attempting reset'', CallReset u s f]))"
  using assms by (simp add: resolveConflict_def tryReset_def node_defs)

lemma walkBack_exceeds:
  assumes orc: "\<And>n. L < n \<Longrightarrow> n < S \<Longrightarrow> oracle_number m \<lparr>Hash = 0, Number = n\<rparr> n"
    and rej: "\<And>safe. L < Number safe \<Longrightarrow> Number safe \<le> S \<Longrightarrow> reset_rejects m u safe f"
    and FL: "Number f \<le> L"
  shows "cur \<le> S \<Longrightarrow> maxWalkBackAttempts - i = k \<Longrightarrow> unat L + k < unat cur \<Longrightarrow>
     fst (walkBack m u f i cur (w, tr)) =
       Some (Errorf (ExceededMaxWalkBack maxWalkBackAttempts) None)"
proof (induction k arbitrary: i cur w tr)
  case 0
  then show ?case by (simp add: walkBack_exceeded)
next
  case (Suc k)
  let ?c = "cur - 1"
  from Suc.prems have i: "i < maxWalkBackAttempts" by simp
  from Suc.prems(3) have uc: "unat ?c = unat cur - 1" by unat_arith
  with Suc.prems(3) have Lc: "L < ?c" by (simp add: word_less_nat_alt)
  from uc Suc.prems(1,3) have cS: "?c < S" by (simp add: word_less_nat_alt word_le_nat_alt)
  from Lc FL have nf: "\<not> ?c \<le> Number f" by simp
  from orc [OF Lc cS] obtain safe w1 where
    o: "backend_SafeDerivedAt m w (chainID m) \<lparr>Hash = 0, Number = ?c\<rparr> = ((safe, None), w1)"
    and n: "Number safe = ?c"
    by (rule oracle_numberD)
  from n Lc cS have "reset_rejects m u safe f" by (simp add: rej)
  then obtain e w2 where r: "Node_Reset m w1 u safe f = (Some e, w2)" and e: "walkable e"
    by (rule reset_rejectsD)
  have "?c \<le> S" using cS by simp
  moreover have "maxWalkBackAttempts - (i + 1) = k" using Suc.prems(2) by simp
  moreover have "unat L + k < unat ?c" using uc Suc.prems(3) by simp
  ultimately show ?case
    using walkBack_step [OF i nf o r] e Suc.IH by simp
qed

lemma walkBack_reaches_finalized:
  assumes orc: "\<And>n. Number f < n \<Longrightarrow> n < S \<Longrightarrow> oracle_number m \<lparr>Hash = 0, Number = n\<rparr> n"
    and rej: "\<And>safe. Number f < Number safe \<Longrightarrow> Number safe \<le> S \<Longrightarrow> reset_rejects m u safe f"
  shows "Number f < cur \<Longrightarrow> cur \<le> S \<Longrightarrow> unat cur - unat (Number f) = k \<Longrightarrow>
     i + k \<le> maxWalkBackAttempts \<Longrightarrow>
     fst (walkBack m u f i cur (w, tr)) = Some (Errorf (ReachedFinalized (Number f)) None)"
proof (induction k arbitrary: i cur w tr)
  case 0
  then show ?case by (simp add: word_less_nat_alt)
next
  case (Suc k)
  let ?c = "cur - 1"
  from Suc.prems have i: "i < maxWalkBackAttempts" by simp
  from Suc.prems(1) have uc: "unat ?c = unat cur - 1" by unat_arith
  show ?case
  proof (cases "?c \<le> Number f")
    case True
    with i show ?thesis by (simp add: walkBack_finalized)
  next
    case False
    then have Fc: "Number f < ?c" by simp
    from uc Suc.prems(1,2) have cS: "?c < S" by (simp add: word_less_nat_alt word_le_nat_alt)
    from orc [OF Fc cS] obtain safe w1 where
      o: "backend_SafeDerivedAt m w (chainID m) \<lparr>Hash = 0, Number = ?c\<rparr> = ((safe, None), w1)"
      and n: "Number safe = ?c"
      by (rule oracle_numberD)
    from n Fc cS have "reset_rejects m u safe f" by (simp add: rej)
    then obtain e w2 where r: "Node_Reset m w1 u safe f = (Some e, w2)" and e: "walkable e"
      by (rule reset_rejectsD)
    have "?c \<le> S" using cS by simp
    moreover have "unat ?c - unat (Number f) = k" using uc Suc.prems(3) by simp
    moreover have "(i + 1) + k \<le> maxWalkBackAttempts" using Suc.prems(4) by simp
    ultimately show ?thesis
      using walkBack_step [OF i False o r] e Suc.IH [OF Fc] by simp
  qed
qed

lemma walkBack_finds:
  assumes orc: "\<And>n. C \<le> n \<Longrightarrow> n < S \<Longrightarrow> oracle_number m \<lparr>Hash = 0, Number = n\<rparr> n"
    and ok: "\<And>safe. Number safe = C \<Longrightarrow> reset_accepts m u safe f"
    and rej: "\<And>safe. C < Number safe \<Longrightarrow> Number safe \<le> S \<Longrightarrow> reset_rejects m u safe f"
    and FC: "Number f < C"
  shows "C < cur \<Longrightarrow> cur \<le> S \<Longrightarrow> unat cur - unat C = k \<Longrightarrow> i + k \<le> maxWalkBackAttempts \<Longrightarrow>
     fst (walkBack m u f i cur (w, tr)) = None \<and>
     map Number (reset_safes (snd (snd (walkBack m u f i cur (w, tr))))) =
       map Number (reset_safes tr) @ map (\<lambda>j. cur - 1 - of_nat j) [0..<k]"
proof (induction k arbitrary: i cur w tr)
  case 0
  then show ?case by (simp add: word_less_nat_alt)
next
  case (Suc k)
  let ?c = "cur - 1"
  from Suc.prems have i: "i < maxWalkBackAttempts" by simp
  from Suc.prems(1) have c1: "C \<le> ?c" "?c < cur" and uc: "unat ?c = unat cur - 1"
    by (unat_arith, unat_arith, unat_arith)
  with Suc.prems(2) FC have c2: "?c < S" "\<not> ?c \<le> Number f" by (unat_arith, unat_arith)
  from orc [OF c1(1) c2(1)] obtain safe w1 where
    o: "backend_SafeDerivedAt m w (chainID m) \<lparr>Hash = 0, Number = ?c\<rparr> = ((safe, None), w1)"
    and n: "Number safe = ?c"
    by (rule oracle_numberD)
  let ?tr = "tr @ [CallSafeDerivedAt (chainID m) \<lparr>Hash = 0, Number = ?c\<rparr>,
                   Log LevelDebug ''Attempting reset'', CallReset u safe f]"
  show ?case
  proof (cases "?c = C")
    case True
    with n have "reset_accepts m u safe f" by (simp add: ok)
    then obtain w2 where r: "Node_Reset m w1 u safe f = (None, w2)" by (rule reset_acceptsD)
    from True uc Suc.prems(3) have "k = 0" by simp
    with walkBack_step [OF i c2(2) o r] n show ?thesis
      by (simp add: reset_safes_append)
  next
    case False
    with c1(1) have lt: "C < ?c" by simp
    with n c2(1) have "reset_rejects m u safe f" by (simp add: rej)
    then obtain e w2 where r: "Node_Reset m w1 u safe f = (Some e, w2)" and e: "walkable e"
      by (rule reset_rejectsD)
    have eq: "walkBack m u f i cur (w, tr) = walkBack m u f (i + 1) ?c (w2, ?tr)"
      using walkBack_step [OF i c2(2) o r] e by simp
    have "?c \<le> S" using c2(1) by simp
    moreover have "unat ?c - unat C = k" using uc Suc.prems(3) by simp
    moreover have "(i + 1) + k \<le> maxWalkBackAttempts" using Suc.prems(4) by simp
    ultimately have IH: "fst (walkBack m u f (i + 1) ?c (w2, ?tr)) = None \<and>
      map Number (reset_safes (snd (snd (walkBack m u f (i + 1) ?c (w2, ?tr))))) =
        map Number (reset_safes ?tr) @ map (\<lambda>j. ?c - 1 - of_nat j) [0..<k]"
      using Suc.IH [OF lt] by blast
    have "map (\<lambda>j. cur - 1 - of_nat j) [0..<Suc k] =
            ?c # map (\<lambda>j. ?c - 1 - of_nat j) [0..<k]"
      by (simp add: map_upt_Suc del: upt_Suc)
    with IH n show ?thesis
      unfolding eq by (simp add: reset_safes_append del: upt_Suc)
  qed
qed

lemma unat_sub_of_nat:
  "j \<le> unat (S :: uint64) \<Longrightarrow> unat (S - of_nat j) = unat S - j"
  by (metis le_unat_uoi unat_sub word_le_nat_alt order_refl)


text \<open>The scenario nodes meet the assumptions on the collaborators.\<close>

lemma walkable_conflicting [simp]:
  "walkable (JsonError conflictingBlockRPCErrCode msg)"
  by (simp add: walkable_def)

lemma oracle_number_conflict_node [simp]:
  "oracle_number (conflict_node C) q n \<longleftrightarrow> Number q = n"
  by (simp add: oracle_number_def conflict_node_def base_node_def)

lemma oracle_number_rejecting_node [simp]:
  "oracle_number rejecting_node q n \<longleftrightarrow> Number q = n"
  by (simp add: oracle_number_def rejecting_node_def base_node_def)

lemma reset_accepts_conflict_node [simp]:
  "reset_accepts (conflict_node C) u safe f \<longleftrightarrow> Number safe = C"
  by (simp add: reset_accepts_def conflict_node_def)

lemma reset_rejects_conflict_node [simp]:
  "reset_rejects (conflict_node C) u safe f \<longleftrightarrow> Number safe \<noteq> C"
  by (simp add: reset_rejects_def conflict_node_def)

lemma reset_rejects_rejecting_node [simp]:
  "reset_rejects rejecting_node u safe f"
  by (simp add: reset_rejects_def rejecting_node_def)

text \<open>
  Claim C1, with the bound of the loop. Let finalized have number \<open>F\<close>, let the oracle
  answer the L1 reference with a safe block of number \<open>S\<close> and a walk-back query at a
  number \<open>n\<close> from \<open>C\<close> up to \<open>S\<close> with a block of that number, and let the sync target
  accept the reset to a safe block of number \<open>C\<close>, \<open>F < C \<le> S\<close>, and reject the
  resets at the numbers above \<open>C\<close> up to \<open>S\<close> with a walkable code. When \<open>S - C\<close> is at
  most 300, \<open>resolveConflict\<close> returns nil; its reset attempts are at the numbers
  \<open>S, S - 1, ..., C\<close>, so there are \<open>S - C + 1\<close> of them, and each has a safe block of a
  number above \<open>F\<close>.
\<close>

theorem resolveConflict_walk_back_finds:
  assumes FC: "Number f < C" and CS: "C \<le> S"
    and bound: "unat S - unat C \<le> maxWalkBackAttempts"
    and init: "oracle_number m (ID l1Ref) S"
    and orc: "\<forall>n. C \<le> n \<and> n < S \<longrightarrow> oracle_number m \<lparr>Hash = 0, Number = n\<rparr> n"
    and ok: "\<forall>safe. Number safe = C \<longrightarrow> reset_accepts m u safe f"
    and rej: "\<forall>safe. C < Number safe \<and> Number safe \<le> S \<longrightarrow> reset_rejects m u safe f"
  shows "fst (resolveConflict m l1Ref u f (w, [])) = None
    \<and> map Number (reset_safes (snd (snd (resolveConflict m l1Ref u f (w, []))))) =
        map (\<lambda>j. S - of_nat j) [0..<unat S - unat C + 1]
    \<and> length (reset_safes (snd (snd (resolveConflict m l1Ref u f (w, []))))) =
        unat S - unat C + 1
    \<and> (\<forall>s \<in> set (reset_safes (snd (snd (resolveConflict m l1Ref u f (w, []))))).
          Number f < Number s)"
proof -
  let ?R = "resolveConflict m l1Ref u f (w, [])"
  let ?k = "unat S - unat C"
  from init obtain s w1 where
    o: "backend_SafeDerivedAt m w (chainID m) (ID l1Ref) = ((s, None), w1)"
    and n: "Number s = S"
    by (rule oracle_numberD)
  let ?tr = "[CallSafeDerivedAt (chainID m) (ID l1Ref),
              Log LevelDebug ''Attempting reset'', CallReset u s f]"
  have main: "fst ?R = None \<and>
      map Number (reset_safes (snd (snd ?R))) = map (\<lambda>j. S - of_nat j) [0..<?k + 1]"
  proof (cases "S = C")
    case True
    with n ok have "reset_accepts m u s f" by simp
    then obtain w2 where r: "Node_Reset m w1 u s f = (None, w2)" by (rule reset_acceptsD)
    from resolveConflict_first_accepted [OF o r, where tr = "[]"] n True show ?thesis by simp
  next
    case False
    with CS have lt: "C < S" by simp
    with n rej have "reset_rejects m u s f" by simp
    then obtain e w2 where r: "Node_Reset m w1 u s f = (Some e, w2)" and e: "walkable e"
      by (rule reset_rejectsD)
    have eq: "?R = walkBack m u f 0 S (w2, ?tr)"
      using resolveConflict_first_rejected [OF o r e, where tr = "[]"] n by simp
    have "fst (walkBack m u f 0 S (w2, ?tr)) = None \<and>
      map Number (reset_safes (snd (snd (walkBack m u f 0 S (w2, ?tr))))) =
        map Number (reset_safes ?tr) @ map (\<lambda>j. S - 1 - of_nat j) [0..<?k]"
    proof (rule walkBack_finds [where C = C and S = S])
      show "oracle_number m \<lparr>Hash = 0, Number = n\<rparr> n" if "C \<le> n" "n < S" for n
        using orc that by blast
      show "reset_accepts m u safe f" if "Number safe = C" for safe
        using ok that by blast
      show "reset_rejects m u safe f" if "C < Number safe" "Number safe \<le> S" for safe
        using rej that by blast
      show "0 + ?k \<le> maxWalkBackAttempts" using bound by simp
    qed (use FC lt in simp_all)
    moreover have "map (\<lambda>j. S - of_nat j) [0..<Suc ?k] =
        S # map (\<lambda>j. S - 1 - of_nat j) [0..<?k]"
      by (simp add: map_upt_Suc del: upt_Suc)
    ultimately show ?thesis
      unfolding eq using n by (simp del: upt_Suc)
  qed
  then have "length (map Number (reset_safes (snd (snd ?R)))) =
      length (map (\<lambda>j. S - of_nat j) [0..<?k + 1])"
    by simp
  then have len: "length (reset_safes (snd (snd ?R))) = ?k + 1"
    by simp
  have "Number f < Number s'" if "s' \<in> set (reset_safes (snd (snd ?R)))" for s'
  proof -
    from that have "Number s' \<in> set (map Number (reset_safes (snd (snd ?R))))" by simp
    moreover from main have "map Number (reset_safes (snd (snd ?R))) =
        map (\<lambda>j. S - of_nat j) [0..<?k + 1]" ..
    ultimately have "Number s' \<in> set (map (\<lambda>j. S - of_nat j) [0..<?k + 1])"
      by (simp only:)
    then obtain j where "j < ?k + 1" and s': "Number s' = S - of_nat j"
      by (auto simp del: upt_Suc)
    then have j: "j \<le> ?k" by simp
    from j have "unat (S - of_nat j) = unat S - j"
      by (intro unat_sub_of_nat) simp
    with j CS FC s' show ?thesis
      unfolding word_less_nat_alt word_le_nat_alt by arith
  qed
  then have "\<forall>s \<in> set (reset_safes (snd (snd ?R))). Number f < Number s" ..
  with main len show ?thesis by (intro conjI) simp_all
qed

theorem resolveConflict_walk_back_finds_witness:
  "Number (block_at 100) < 120 \<and> (120 :: uint64) \<le> 150
   \<and> unat (150 :: uint64) - unat (120 :: uint64) \<le> maxWalkBackAttempts
   \<and> oracle_number (conflict_node 120) (ID (l1_at 150)) 150
   \<and> fst (resolveConflict (conflict_node 120) (l1_at 150) (block_at 160) (block_at 100)
        ([], [])) = None
   \<and> length (reset_safes (snd (snd (resolveConflict (conflict_node 120) (l1_at 150)
        (block_at 160) (block_at 100) ([], []))))) = 31
   \<and> map Number (reset_safes (snd (snd (resolveConflict (conflict_node 120) (l1_at 150)
        (block_at 160) (block_at 100) ([], []))))) = map (\<lambda>j. 150 - of_nat j) [0..<31]
   \<and> list_all (\<lambda>s. 100 < Number s)
        (reset_safes (snd (snd (resolveConflict (conflict_node 120) (l1_at 150)
           (block_at 160) (block_at 100) ([], [])))))"
proof -
  have hyps:
    "Number (block_at 100) < 120" "(120 :: uint64) \<le> 150"
    "unat (150 :: uint64) - unat (120 :: uint64) \<le> maxWalkBackAttempts"
    "oracle_number (conflict_node 120) (ID (l1_at 150)) 150"
    "\<forall>n. 120 \<le> n \<and> n < 150 \<longrightarrow> oracle_number (conflict_node 120) \<lparr>Hash = 0, Number = n\<rparr> n"
    "\<forall>safe. Number safe = 120 \<longrightarrow>
       reset_accepts (conflict_node 120) (block_at 160) safe (block_at 100)"
    "\<forall>safe. 120 < Number safe \<and> Number safe \<le> 150 \<longrightarrow>
       reset_rejects (conflict_node 120) (block_at 160) safe (block_at 100)"
    by (auto simp: block_at_def l1_at_def ID_def maxWalkBackAttempts_def)
  from resolveConflict_walk_back_finds [OF hyps, of "[]"] hyps(1-4) show ?thesis
    by (simp add: block_at_def list_all_iff del: upt_Suc)
qed

text \<open>The claim without the bound fails: with \<open>F = 0\<close>, \<open>S = 400\<close> and \<open>C = 50\<close> the 300
  attempts of the loop end at number 100, and the result is the attempt-bound error.\<close>

theorem resolveConflict_walk_back_bound_counterexample:
  "Number (block_at 0) < 50 \<and> (50 :: uint64) \<le> 400
   \<and> fst (resolveConflict (conflict_node 50) (l1_at 400) (block_at 500) (block_at 0) ([], []))
       = Some (Errorf (ExceededMaxWalkBack 300) None)"
proof -
  have "resolveConflict (conflict_node 50) (l1_at 400) (block_at 500) (block_at 0) ([], []) =
      walkBack (conflict_node 50) (block_at 500) (block_at 0) 0 400
        ([], [CallSafeDerivedAt 10 (ID (l1_at 400)), Log LevelDebug ''Attempting reset'',
              CallReset (block_at 500) (block_at 400) (block_at 0)])"
    by (simp add: resolveConflict_def tryReset_def node_defs conflict_node_def base_node_def
        l1_at_def block_at_def ID_def)
  moreover have "fst (walkBack (conflict_node 50) (block_at 500) (block_at 0) 0 400
        ([], [CallSafeDerivedAt 10 (ID (l1_at 400)), Log LevelDebug ''Attempting reset'',
              CallReset (block_at 500) (block_at 400) (block_at 0)])) =
      Some (Errorf (ExceededMaxWalkBack maxWalkBackAttempts) None)"
    by (rule walkBack_exceeds [where L = 50 and S = 400 and k = 300])
      (auto simp: block_at_def maxWalkBackAttempts_def)
  ultimately show ?thesis
    by (simp add: block_at_def maxWalkBackAttempts_def)
qed

text \<open>
  Claim C2. Let finalized have number \<open>F\<close>, let the oracle answer the L1 reference with a
  safe block of number \<open>S > F\<close> and a walk-back query at a number between \<open>F\<close> and \<open>S\<close>
  with a block of that number, and let the sync target reject every reset at a number
  above \<open>F\<close> up to \<open>S\<close> with a walkable code. When \<open>S - F\<close> is at most 300 the walk-back
  reaches \<open>F\<close> within its 300 rounds and the result is the "reached finalized block" error;
  otherwise the 300 rounds are used up first and the result is the "exceeded maximum
  walk-back attempts" error. The two errors differ.
\<close>

theorem resolveConflict_walk_back_exhaustion:
  assumes FS: "Number f < S"
    and init: "oracle_number m (ID l1Ref) S"
    and orc: "\<forall>n. Number f < n \<and> n < S \<longrightarrow> oracle_number m \<lparr>Hash = 0, Number = n\<rparr> n"
    and rej: "\<forall>safe. Number f < Number safe \<and> Number safe \<le> S \<longrightarrow> reset_rejects m u safe f"
  shows "(unat S - unat (Number f) \<le> maxWalkBackAttempts \<longrightarrow>
            fst (resolveConflict m l1Ref u f (w, tr)) =
              Some (Errorf (ReachedFinalized (Number f)) None))
    \<and> (maxWalkBackAttempts < unat S - unat (Number f) \<longrightarrow>
            fst (resolveConflict m l1Ref u f (w, tr)) =
              Some (Errorf (ExceededMaxWalkBack maxWalkBackAttempts) None))
    \<and> Errorf (ReachedFinalized (Number f)) None
         \<noteq> Errorf (ExceededMaxWalkBack maxWalkBackAttempts) None"
proof -
  from init obtain s w1 where
    o: "backend_SafeDerivedAt m w (chainID m) (ID l1Ref) = ((s, None), w1)"
    and n: "Number s = S"
    by (rule oracle_numberD)
  from n FS rej have "reset_rejects m u s f" by simp
  then obtain e w2 where r: "Node_Reset m w1 u s f = (Some e, w2)" and e: "walkable e"
    by (rule reset_rejectsD)
  let ?st = "(w2, tr @ [CallSafeDerivedAt (chainID m) (ID l1Ref),
                        Log LevelDebug ''Attempting reset'', CallReset u s f])"
  have eq: "resolveConflict m l1Ref u f (w, tr) = walkBack m u f 0 S ?st"
    using resolveConflict_first_rejected [OF o r e] n by simp
  have orc': "oracle_number m \<lparr>Hash = 0, Number = n\<rparr> n" if "Number f < n" "n < S" for n
    using orc that by blast
  have rej': "reset_rejects m u safe f" if "Number f < Number safe" "Number safe \<le> S" for safe
    using rej that by blast
  have "fst (walkBack m u f 0 S ?st) = Some (Errorf (ReachedFinalized (Number f)) None)"
    if "unat S - unat (Number f) \<le> maxWalkBackAttempts"
    using orc' rej' FS that
    by (intro walkBack_reaches_finalized [where S = S and k = "unat S - unat (Number f)"])
      simp_all
  moreover
  have "fst (walkBack m u f 0 S ?st) = Some (Errorf (ExceededMaxWalkBack maxWalkBackAttempts) None)"
    if "maxWalkBackAttempts < unat S - unat (Number f)"
    using orc' rej' that
    by (intro walkBack_exceeds [where S = S and L = "Number f" and k = maxWalkBackAttempts])
      simp_all
  ultimately show ?thesis
    unfolding eq by simp
qed

theorem resolveConflict_walk_back_exhaustion_witness:
  "Number (block_at 100) < 150 \<and> Number (block_at 100) < 500
   \<and> oracle_number rejecting_node (ID (l1_at 150)) 150
   \<and> oracle_number rejecting_node (ID (l1_at 500)) 500
   \<and> unat (150 :: uint64) - unat (Number (block_at 100)) \<le> maxWalkBackAttempts
   \<and> fst (resolveConflict rejecting_node (l1_at 150) (block_at 160) (block_at 100) ([], [])) =
       Some (Errorf (ReachedFinalized 100) None)
   \<and> maxWalkBackAttempts < unat (500 :: uint64) - unat (Number (block_at 100))
   \<and> fst (resolveConflict rejecting_node (l1_at 500) (block_at 160) (block_at 100) ([], [])) =
       Some (Errorf (ExceededMaxWalkBack 300) None)"
  using
    resolveConflict_walk_back_exhaustion
      [where m = rejecting_node and f = "block_at 100" and S = 150 and ?l1Ref = "l1_at 150"
         and u = "block_at 160" and w = "[]" and tr = "[]"]
    resolveConflict_walk_back_exhaustion
      [where m = rejecting_node and f = "block_at 100" and S = 500 and ?l1Ref = "l1_at 500"
         and u = "block_at 160" and w = "[]" and tr = "[]"]
  by (simp add: block_at_def l1_at_def ID_def maxWalkBackAttempts_def)

subsection \<open>resolveConflict: the shape of every walk-back\<close>

text \<open>Whatever the collaborators answer, a walk-back from \<open>currentBlock\<close> reads the oracle at
  the numbers \<open>currentBlock - 1, currentBlock - 2, ...\<close> (in \<^verbatim>\<open>uint64\<close>), \<open>n\<close> of them, and
  ends in one of five ways.\<close>

lemma oracle_queries_append:
  "oracle_queries (xs @ ys) = oracle_queries xs @ oracle_queries ys"
  by (induction xs rule: oracle_queries.induct) simp_all

lemma walkBack_shape:
  "maxWalkBackAttempts - i = k \<Longrightarrow>
   \<exists>n \<le> k.
     oracle_queries (snd (snd (walkBack m u f i cur (w, tr)))) =
       oracle_queries tr @ map (\<lambda>j. \<lparr>Hash = 0, Number = cur - 1 - of_nat j\<rparr>) [0..<n]
     \<and> ((fst (walkBack m u f i cur (w, tr)) = None \<and> 0 < n)
        \<or> (fst (walkBack m u f i cur (w, tr)) = Some (Errorf (ReachedFinalized (Number f)) None)
             \<and> n < k \<and> cur - 1 - of_nat n \<le> Number f)
        \<or> (fst (walkBack m u f i cur (w, tr)) =
               Some (Errorf (ExceededMaxWalkBack maxWalkBackAttempts) None) \<and> n = k)
        \<or> (\<exists>err. fst (walkBack m u f i cur (w, tr)) =
               Some (Errorf (FailedRetrieveSafeBlock (cur - of_nat n)) (Some err)) \<and> 0 < n)
        \<or> (\<exists>err. fst (walkBack m u f i cur (w, tr)) =
               Some (Errorf (ErrorDuringResetAt (cur - of_nat n)) (Some err))
               \<and> \<not> walkable err \<and> 0 < n))"
proof (induction k arbitrary: i cur w tr)
  case 0
  then have "\<not> i < maxWalkBackAttempts" by simp
  then show ?case by (simp add: walkBack_exceeded)
next
  case (Suc k)
  let ?c = "cur - 1"
  let ?q = "\<lparr>Hash = 0, Number = ?c\<rparr>"
  from Suc.prems have i: "i < maxWalkBackAttempts" by simp
  show ?case
  proof (cases "?c \<le> Number f")
    case True
    with i show ?thesis
      by (intro exI [of _ 0]) (simp add: walkBack_finalized)
  next
    case nf: False
    obtain safe eo w1 where
      o: "backend_SafeDerivedAt m w (chainID m) ?q = ((safe, eo), w1)"
      by (metis surj_pair)
    show ?thesis
    proof (cases eo)
      case (Some err)
      with walkBack_oracle_fails [OF i nf, of m w safe err w1 u tr] o show ?thesis
        by (intro exI [of _ 1]) (simp add: oracle_queries_append)
    next
      case None
      with o have o': "backend_SafeDerivedAt m w (chainID m) ?q = ((safe, None), w1)" by simp
      obtain r w2 where r: "Node_Reset m w1 u safe f = (r, w2)" by (metis surj_pair)
      let ?tr = "tr @ [CallSafeDerivedAt (chainID m) ?q,
                       Log LevelDebug ''Attempting reset'', CallReset u safe f]"
      note step = walkBack_step [OF i nf o' r, of tr]
      show ?thesis
      proof (cases r)
        case None
        with step show ?thesis
          by (intro exI [of _ 1]) (simp add: oracle_queries_append)
      next
        case (Some e)
        show ?thesis
        proof (cases "walkable e")
          case False
          with step Some show ?thesis
            by (intro exI [of _ 1]) (simp add: oracle_queries_append)
        next
          case True
          with step Some have eq:
            "walkBack m u f i cur (w, tr) = walkBack m u f (i + 1) ?c (w2, ?tr)" by simp
          from Suc.prems have "maxWalkBackAttempts - (i + 1) = k" by simp
          from Suc.IH [OF this, of ?c w2 ?tr] obtain n where
            n: "n \<le> k" and
            q: "oracle_queries (snd (snd (walkBack m u f (i + 1) ?c (w2, ?tr)))) =
                  oracle_queries ?tr @ map (\<lambda>j. \<lparr>Hash = 0, Number = ?c - 1 - of_nat j\<rparr>) [0..<n]"
            and res:
              "(fst (walkBack m u f (i + 1) ?c (w2, ?tr)) = None \<and> 0 < n)
               \<or> (fst (walkBack m u f (i + 1) ?c (w2, ?tr)) =
                     Some (Errorf (ReachedFinalized (Number f)) None)
                    \<and> n < k \<and> ?c - 1 - of_nat n \<le> Number f)
               \<or> (fst (walkBack m u f (i + 1) ?c (w2, ?tr)) =
                     Some (Errorf (ExceededMaxWalkBack maxWalkBackAttempts) None) \<and> n = k)
               \<or> (\<exists>err. fst (walkBack m u f (i + 1) ?c (w2, ?tr)) =
                     Some (Errorf (FailedRetrieveSafeBlock (?c - of_nat n)) (Some err)) \<and> 0 < n)
               \<or> (\<exists>err. fst (walkBack m u f (i + 1) ?c (w2, ?tr)) =
                     Some (Errorf (ErrorDuringResetAt (?c - of_nat n)) (Some err))
                     \<and> \<not> walkable err \<and> 0 < n)"
            by blast
          have shift: "map (\<lambda>j. \<lparr>Hash = 0, Number = cur - 1 - of_nat j\<rparr>) [0..<Suc n] =
              ?q # map (\<lambda>j. \<lparr>Hash = 0, Number = ?c - 1 - of_nat j\<rparr>) [0..<n]"
            by (simp add: map_upt_Suc del: upt_Suc)
          have sub: "?c - 1 - of_nat n = cur - 1 - of_nat (Suc n)"
            "?c - of_nat n = cur - of_nat (Suc n)"
            by simp_all
          show ?thesis
            unfolding eq
            apply (rule exI [of _ "Suc n"])
            apply (intro conjI)
            subgoal using n by simp
            subgoal using q shift by (simp add: oracle_queries_append del: upt_Suc)
            subgoal using res unfolding sub by auto
            done
        qed
      qed
    qed
  qed
qed

subsection \<open>resolveConflict: a safe block of number 0\<close>

lemma unat_wrapped: "n \<le> 300 \<Longrightarrow> unat (- 1 - of_nat n :: uint64) = 18446744073709551615 - n"
  using unat_sub_of_nat [of n "- 1"] by (simp add: unsigned_minus_1_eq_mask mask_eq_exp_minus_1)

lemma max_uint64: "(18446744073709551615 :: uint64) = - 1"
  by simp


lemma walked_Suc_cases:
  assumes "walked m u f cur (Suc j) (w, tr) = Some st'"
  obtains safe w1 e w2 where
    "backend_SafeDerivedAt m w (chainID m) \<lparr>Hash = 0, Number = cur - 1\<rparr> = ((safe, None), w1)"
    "Node_Reset m w1 u safe f = (Some e, w2)" "walkable e"
    "walked m u f (cur - 1) j
       (w2, tr @ [CallSafeDerivedAt (chainID m) \<lparr>Hash = 0, Number = cur - 1\<rparr>,
                  Log LevelDebug ''Attempting reset'', CallReset u safe f]) = Some st'"
proof -
  obtain safe eo w1 where
    o: "backend_SafeDerivedAt m w (chainID m) \<lparr>Hash = 0, Number = cur - 1\<rparr> = ((safe, eo), w1)"
    by (metis surj_pair)
  obtain r w2 where r: "Node_Reset m w1 u safe f = (r, w2)" by (metis surj_pair)
  from assms o r have "eo = None"
    by (cases eo) (simp_all add: node_defs)
  moreover from assms o r this obtain e where "r = Some e" "walkable e"
    by (cases r) (simp_all add: node_defs split: if_splits)
  ultimately show ?thesis
    using assms o r that by (simp add: node_defs)
qed

lemma walked_queries:
  "walked m u f cur j (w, tr) = Some (w', tr') \<Longrightarrow>
   oracle_queries tr' =
     oracle_queries tr @ map (\<lambda>i. \<lparr>Hash = 0, Number = cur - 1 - of_nat i\<rparr>) [0..<j]"
proof (induction j arbitrary: cur w tr)
  case 0
  then show ?case by simp
next
  case (Suc j)
  from Suc.prems obtain safe w1 e w2 where
    rest: "walked m u f (cur - 1) j
       (w2, tr @ [CallSafeDerivedAt (chainID m) \<lparr>Hash = 0, Number = cur - 1\<rparr>,
                  Log LevelDebug ''Attempting reset'', CallReset u safe f]) = Some (w', tr')"
    by (rule walked_Suc_cases)
  have shift: "map (\<lambda>i. \<lparr>Hash = 0, Number = cur - 1 - of_nat i\<rparr>) [0..<Suc j] =
      \<lparr>Hash = 0, Number = cur - 1\<rparr> #
        map (\<lambda>i. \<lparr>Hash = 0, Number = cur - 1 - 1 - of_nat i\<rparr>) [0..<j]"
    by (simp add: map_upt_Suc del: upt_Suc)
  from Suc.IH [OF rest] show ?case
    unfolding shift by (simp add: oracle_queries_append)
qed

lemma walkBack_walked:
  "walked m u f cur j (w, tr) = Some st' \<Longrightarrow>
   \<forall>d. 0 < d \<and> d \<le> j \<longrightarrow> \<not> cur - of_nat d \<le> Number f \<Longrightarrow>
   i + j \<le> maxWalkBackAttempts \<Longrightarrow>
   walkBack m u f i cur (w, tr) = walkBack m u f (i + j) (cur - of_nat j) st'"
proof (induction j arbitrary: i cur w tr)
  case 0
  then show ?case by simp
next
  case (Suc j)
  from Suc.prems(1) obtain safe w1 e w2 where
    o: "backend_SafeDerivedAt m w (chainID m) \<lparr>Hash = 0, Number = cur - 1\<rparr> = ((safe, None), w1)"
    and r: "Node_Reset m w1 u safe f = (Some e, w2)" and e: "walkable e"
    and rest: "walked m u f (cur - 1) j
       (w2, tr @ [CallSafeDerivedAt (chainID m) \<lparr>Hash = 0, Number = cur - 1\<rparr>,
                  Log LevelDebug ''Attempting reset'', CallReset u safe f]) = Some st'"
    by (rule walked_Suc_cases)
  from Suc.prems(3) have i: "i < maxWalkBackAttempts" by simp
  from Suc.prems(2) have "0 < (1 :: nat) \<and> 1 \<le> Suc j \<longrightarrow> \<not> cur - of_nat 1 \<le> Number f"
    by (rule spec)
  then have nf: "\<not> cur - 1 \<le> Number f" by simp
  have nofin: "\<forall>d. 0 < d \<and> d \<le> j \<longrightarrow> \<not> cur - 1 - of_nat d \<le> Number f"
  proof (intro allI impI)
    fix d assume "0 < d \<and> d \<le> j"
    then have "0 < Suc d \<and> Suc d \<le> Suc j" by simp
    with Suc.prems(2) have *: "\<not> cur - of_nat (Suc d) \<le> Number f" by blast
    have eq: "cur - of_nat (Suc d) = cur - 1 - of_nat d" by simp
    from * show "\<not> cur - 1 - of_nat d \<le> Number f" unfolding eq .
  qed
  from Suc.prems(3) have le: "(i + 1) + j \<le> maxWalkBackAttempts" by simp
  have "walkBack m u f i cur (w, tr) =
      walkBack m u f (i + 1) (cur - 1)
        (w2, tr @ [CallSafeDerivedAt (chainID m) \<lparr>Hash = 0, Number = cur - 1\<rparr>,
                   Log LevelDebug ''Attempting reset'', CallReset u safe f])"
    using walkBack_step [OF i nf o r] e by simp
  also have "\<dots> = walkBack m u f ((i + 1) + j) (cur - 1 - of_nat j) st'"
    by (rule Suc.IH [OF rest nofin le])
  also have "(i + 1) + j = i + Suc j" by simp
  also have "cur - 1 - of_nat j = cur - of_nat (Suc j)" by simp
  finally show ?case .
qed

lemma wrapped_above:
  assumes "0 < d" "d \<le> 300" "unat (x :: uint64) + d < 2 ^ 64"
  shows "\<not> 0 - of_nat d \<le> x"
proof -
  from assms(1) obtain n where d: "d = Suc n" by (cases d) auto
  with assms(2) have "unat (- 1 - of_nat n :: uint64) = 18446744073709551615 - n"
    by (intro unat_wrapped) simp
  moreover have "(0 :: uint64) - of_nat d = - 1 - of_nat n" using d by simp
  ultimately show ?thesis
    using assms(3) d by (simp add: word_le_nat_alt)
qed


lemma walked_snoc:
  "walked m u f cur j (w, tr) = Some (wj, trj) \<Longrightarrow>
   backend_SafeDerivedAt m wj (chainID m) \<lparr>Hash = 0, Number = cur - of_nat j - 1\<rparr> =
     ((safe, None), w') \<Longrightarrow>
   Node_Reset m w' u safe f = (Some e, w'') \<Longrightarrow> walkable e \<Longrightarrow>
   walked m u f cur (Suc j) (w, tr) =
     Some (w'', trj @ [CallSafeDerivedAt (chainID m) \<lparr>Hash = 0, Number = cur - of_nat j - 1\<rparr>,
                       Log LevelDebug ''Attempting reset'', CallReset u safe f])"
proof (induction j arbitrary: cur w tr)
  case 0
  then show ?case by (simp add: node_defs)
next
  case (Suc j)
  from Suc.prems(1) obtain safe0 w1 e0 w2 where
    o: "backend_SafeDerivedAt m w (chainID m) \<lparr>Hash = 0, Number = cur - 1\<rparr> = ((safe0, None), w1)"
    and r: "Node_Reset m w1 u safe0 f = (Some e0, w2)" and e: "walkable e0"
    and rest: "walked m u f (cur - 1) j
       (w2, tr @ [CallSafeDerivedAt (chainID m) \<lparr>Hash = 0, Number = cur - 1\<rparr>,
                  Log LevelDebug ''Attempting reset'', CallReset u safe0 f]) = Some (wj, trj)"
    by (rule walked_Suc_cases)
  have eq: "cur - of_nat (Suc j) - 1 = cur - 1 - of_nat j - 1" by simp
  from Suc.prems(2) have q:
    "backend_SafeDerivedAt m wj (chainID m) \<lparr>Hash = 0, Number = cur - 1 - of_nat j - 1\<rparr> =
       ((safe, None), w')"
    unfolding eq .
  have "walked m u f cur (Suc (Suc j)) (w, tr) =
      walked m u f (cur - 1) (Suc j)
        (w2, tr @ [CallSafeDerivedAt (chainID m) \<lparr>Hash = 0, Number = cur - 1\<rparr>,
                   Log LevelDebug ''Attempting reset'', CallReset u safe0 f])"
    using o r e by (simp add: node_defs)
  also have "\<dots> =
      Some (w'', trj @ [CallSafeDerivedAt (chainID m) \<lparr>Hash = 0, Number = cur - 1 - of_nat j - 1\<rparr>,
                        Log LevelDebug ''Attempting reset'', CallReset u safe f])"
    by (rule Suc.IH [OF rest q Suc.prems(3,4)])
  finally show ?case unfolding eq .
qed

text \<open>Every walk-back has a number of rounds after which it goes on, followed by a
  round that stops it or by the end of the allowance.\<close>

lemma walked_covers:
  "\<exists>j \<le> n. \<exists>stj. walked m u f cur j st = Some stj
      \<and> (j = n \<or> walked m u f cur (Suc j) st = None)"
proof (induction n)
  case 0
  show ?case by (intro exI [of _ 0]) simp
next
  case (Suc n)
  then obtain j stj where j: "j \<le> n" "walked m u f cur j st = Some stj"
    and last: "j = n \<or> walked m u f cur (Suc j) st = None"
    by blast
  show ?case
  proof (cases "j = n \<and> walked m u f cur (Suc n) st \<noteq> None")
    case True
    then obtain st' where "walked m u f cur (Suc n) st = Some st'" by blast
    then show ?thesis by (intro exI [of _ "Suc n"]) (simp del: walked.simps)
  next
    case False
    with last have "j = Suc n \<or> walked m u f cur (Suc j) st = None"
      by (cases "walked m u f cur (Suc n) st") (auto simp del: walked.simps)
    with j show ?thesis
      by (intro exI [of _ j]) (simp del: walked.simps)
  qed
qed

text \<open>On the node that rejects every reset the walk goes on for any number of rounds.\<close>

lemma walked_rejecting_node:
  "walked rejecting_node u f cur j (w, tr) =
     Some (w, tr @ concat (map (\<lambda>i. scenario_round u f (cur - 1 - of_nat i)) [0..<j]))"
proof (induction j arbitrary: cur tr)
  case 0
  then show ?case by simp
next
  case (Suc j)
  have shift: "map (\<lambda>i. scenario_round u f (cur - 1 - of_nat i)) [0..<Suc j] =
      scenario_round u f (cur - 1) #
        map (\<lambda>i. scenario_round u f (cur - 1 - 1 - of_nat i)) [0..<j]"
    by (simp only: map_upt_Suc of_nat_Suc diff_diff_eq [symmetric]) simp
  have "walked rejecting_node u f cur (Suc j) (w, tr) =
      walked rejecting_node u f (cur - 1) j (w, tr @ scenario_round u f (cur - 1))"
    by (simp add: node_defs rejecting_node_def base_node_def scenario_round_def block_at_def)
  also have "\<dots> =
      Some (w, (tr @ scenario_round u f (cur - 1)) @
        concat (map (\<lambda>i. scenario_round u f (cur - 1 - 1 - of_nat i)) [0..<j]))"
    by (rule Suc.IH)
  also have "(tr @ scenario_round u f (cur - 1)) @
        concat (map (\<lambda>i. scenario_round u f (cur - 1 - 1 - of_nat i)) [0..<j]) =
      tr @ concat (map (\<lambda>i. scenario_round u f (cur - 1 - of_nat i)) [0..<Suc j])"
    unfolding shift by (simp only: concat.simps append_assoc)
  finally show ?case .
qed

text \<open>
  Claim C10, with the condition that keeps the wrapped counter above finalized. Let the
  safe block the oracle derives for the L1 reference have number 0 and let the first reset
  fail with a walkable code. The decrement of the counter wraps: the rounds of the
  walk-back read the oracle at \<open>2^64 - 1, 2^64 - 2, ...\<close>. Let \<open>j\<close> rounds, at most 300,
  each have read the oracle with success and had the reset rejected with a walkable
  error, the number of finalized being below \<open>2^64 - j\<close>. When \<open>j\<close> is 300 the result is
  the attempt-bound error. Otherwise, when the number of finalized is below
  \<open>2^64 - 1 - j\<close> (for \<open>j = 0\<close>: when it is not \<open>2^64 - 1\<close>), the check against
  finalized does not stop the walk-back: round \<open>j + 1\<close> reads the oracle at
  \<open>2^64 - 1 - j\<close>, and ends the walk-back with the oracle's error when that read fails,
  with success when the reset succeeds, with the reset's error when it is not walkable;
  when it is walkable, \<open>j + 1\<close> rounds have gone on. The result, the world and the whole
  trace are those stated.
\<close>

theorem resolveConflict_wraps_at_zero:
  assumes o: "backend_SafeDerivedAt m w (chainID m) (ID l1Ref) = ((s, None), w1)"
    and z: "Number s = 0"
    and r: "Node_Reset m w1 u s f = (Some e, w2)"
    and e: "walkable e"
    and j: "walked m u f 0 j
        (w2, [CallSafeDerivedAt (chainID m) (ID l1Ref), Log LevelDebug ''Attempting reset'',
              CallReset u s f]) = Some (wj, trj)"
    and jle: "j \<le> maxWalkBackAttempts"
    and F: "unat (Number f) + j < 2 ^ 64"
  shows "oracle_queries trj =
        ID l1Ref # map (\<lambda>i. \<lparr>Hash = 0, Number = 18446744073709551615 - of_nat i\<rparr>) [0..<j]
    \<and> (j = maxWalkBackAttempts \<longrightarrow>
          resolveConflict m l1Ref u f (w, []) =
            (Some (Errorf (ExceededMaxWalkBack maxWalkBackAttempts) None), (wj, trj)))
    \<and> (j < maxWalkBackAttempts \<and> unat (Number f) + j < 2 ^ 64 - 1 \<longrightarrow>
          (backend_SafeDerivedAt m wj (chainID m)
               \<lparr>Hash = 0, Number = 18446744073709551615 - of_nat j\<rparr> = ((safe, Some err), w') \<longrightarrow>
             resolveConflict m l1Ref u f (w, []) =
               (Some (Errorf (FailedRetrieveSafeBlock (18446744073709551615 - of_nat j)) (Some err)),
                (w', trj @ [CallSafeDerivedAt (chainID m)
                              \<lparr>Hash = 0, Number = 18446744073709551615 - of_nat j\<rparr>])))
          \<and> (backend_SafeDerivedAt m wj (chainID m)
               \<lparr>Hash = 0, Number = 18446744073709551615 - of_nat j\<rparr> = ((safe, None), w') \<longrightarrow>
             Node_Reset m w' u safe f = (None, w'') \<longrightarrow>
             resolveConflict m l1Ref u f (w, []) =
               (None,
                (w'', trj @ [CallSafeDerivedAt (chainID m)
                               \<lparr>Hash = 0, Number = 18446744073709551615 - of_nat j\<rparr>,
                             Log LevelDebug ''Attempting reset'', CallReset u safe f])))
          \<and> (backend_SafeDerivedAt m wj (chainID m)
               \<lparr>Hash = 0, Number = 18446744073709551615 - of_nat j\<rparr> = ((safe, None), w') \<longrightarrow>
             Node_Reset m w' u safe f = (Some e', w'') \<longrightarrow> \<not> walkable e' \<longrightarrow>
             resolveConflict m l1Ref u f (w, []) =
               (Some (Errorf (ErrorDuringResetAt (18446744073709551615 - of_nat j)) (Some e')),
                (w'', trj @ [CallSafeDerivedAt (chainID m)
                               \<lparr>Hash = 0, Number = 18446744073709551615 - of_nat j\<rparr>,
                             Log LevelDebug ''Attempting reset'', CallReset u safe f])))
          \<and> (backend_SafeDerivedAt m wj (chainID m)
               \<lparr>Hash = 0, Number = 18446744073709551615 - of_nat j\<rparr> = ((safe, None), w') \<longrightarrow>
             Node_Reset m w' u safe f = (Some e', w'') \<longrightarrow> walkable e' \<longrightarrow>
             walked m u f 0 (Suc j)
               (w2, [CallSafeDerivedAt (chainID m) (ID l1Ref), Log LevelDebug ''Attempting reset'',
                     CallReset u s f]) =
               Some (w'', trj @ [CallSafeDerivedAt (chainID m)
                                   \<lparr>Hash = 0, Number = 18446744073709551615 - of_nat j\<rparr>,
                                 Log LevelDebug ''Attempting reset'', CallReset u safe f])))"
proof -
  let ?tr = "[CallSafeDerivedAt (chainID m) (ID l1Ref),
              Log LevelDebug ''Attempting reset'', CallReset u s f]"
  let ?c = "0 - of_nat j :: uint64"
  let ?q = "\<lparr>Hash = 0, Number = 18446744073709551615 - of_nat j\<rparr> :: BlockID"
  have c1: "?c - 1 = 18446744073709551615 - of_nat j"
    by (simp add: max_uint64)
  have eq: "resolveConflict m l1Ref u f (w, []) = walkBack m u f 0 0 (w2, ?tr)"
    using resolveConflict_first_rejected [OF o r e, where tr = "[]"] z by simp
  have nofin: "\<forall>d. 0 < d \<and> d \<le> j \<longrightarrow> \<not> 0 - of_nat d \<le> Number f"
  proof (intro allI impI)
    fix d assume d: "0 < d \<and> d \<le> j"
    with jle F show "\<not> 0 - of_nat d \<le> Number f"
      by (intro wrapped_above) (simp_all add: maxWalkBackAttempts_def)
  qed
  have sim: "walkBack m u f 0 0 (w2, ?tr) = walkBack m u f (0 + j) ?c (wj, trj)"
    using j nofin jle by (intro walkBack_walked) simp_all
  have walk: "resolveConflict m l1Ref u f (w, []) = walkBack m u f j ?c (wj, trj)"
    using eq sim by simp
  have queries: "oracle_queries trj =
      ID l1Ref # map (\<lambda>i. \<lparr>Hash = 0, Number = 18446744073709551615 - of_nat i\<rparr>) [0..<j]"
    using walked_queries [OF j] by (simp add: max_uint64)
  have bound: "resolveConflict m l1Ref u f (w, []) =
      (Some (Errorf (ExceededMaxWalkBack maxWalkBackAttempts) None), (wj, trj))"
    if "j = maxWalkBackAttempts"
    unfolding walk using that by (simp add: walkBack_exceeded)
  have round:
    "(backend_SafeDerivedAt m wj (chainID m) ?q = ((safe, Some err), w') \<longrightarrow>
        resolveConflict m l1Ref u f (w, []) =
          (Some (Errorf (FailedRetrieveSafeBlock (18446744073709551615 - of_nat j)) (Some err)),
           (w', trj @ [CallSafeDerivedAt (chainID m) ?q])))
     \<and> (backend_SafeDerivedAt m wj (chainID m) ?q = ((safe, None), w') \<longrightarrow>
        Node_Reset m w' u safe f = (None, w'') \<longrightarrow>
        resolveConflict m l1Ref u f (w, []) =
          (None, (w'', trj @ [CallSafeDerivedAt (chainID m) ?q,
                              Log LevelDebug ''Attempting reset'', CallReset u safe f])))
     \<and> (backend_SafeDerivedAt m wj (chainID m) ?q = ((safe, None), w') \<longrightarrow>
        Node_Reset m w' u safe f = (Some e', w'') \<longrightarrow> \<not> walkable e' \<longrightarrow>
        resolveConflict m l1Ref u f (w, []) =
          (Some (Errorf (ErrorDuringResetAt (18446744073709551615 - of_nat j)) (Some e')),
           (w'', trj @ [CallSafeDerivedAt (chainID m) ?q,
                        Log LevelDebug ''Attempting reset'', CallReset u safe f])))
     \<and> (backend_SafeDerivedAt m wj (chainID m) ?q = ((safe, None), w') \<longrightarrow>
        Node_Reset m w' u safe f = (Some e', w'') \<longrightarrow> walkable e' \<longrightarrow>
        walked m u f 0 (Suc j) (w2, ?tr) =
          Some (w'', trj @ [CallSafeDerivedAt (chainID m) ?q,
                            Log LevelDebug ''Attempting reset'', CallReset u safe f]))"
    if lt: "j < maxWalkBackAttempts" and F1: "unat (Number f) + j < 2 ^ 64 - 1"
  proof -
    have *: "\<not> 0 - of_nat (Suc j) \<le> Number f"
      using lt F1 by (intro wrapped_above) (simp_all add: maxWalkBackAttempts_def)
    have c2: "(0 :: uint64) - of_nat (Suc j) = ?c - 1" by simp
    from * have nf: "\<not> ?c - 1 \<le> Number f" unfolding c2 .
    have fails: "walkBack m u f j ?c (wj, trj) =
        (Some (Errorf (FailedRetrieveSafeBlock (?c - 1)) (Some err)),
         (w', trj @ [CallSafeDerivedAt (chainID m) \<lparr>Hash = 0, Number = ?c - 1\<rparr>]))"
      if "backend_SafeDerivedAt m wj (chainID m) \<lparr>Hash = 0, Number = ?c - 1\<rparr> = ((safe, Some err), w')"
      by (rule walkBack_oracle_fails [OF lt nf that])
    have step: "walkBack m u f j ?c (wj, trj) =
        (case r' of
           None \<Rightarrow> (None, (w'', trj @ [CallSafeDerivedAt (chainID m) \<lparr>Hash = 0, Number = ?c - 1\<rparr>,
                                        Log LevelDebug ''Attempting reset'', CallReset u safe f]))
         | Some e \<Rightarrow>
             if walkable e then
               walkBack m u f (j + 1) (?c - 1)
                 (w'', trj @ [CallSafeDerivedAt (chainID m) \<lparr>Hash = 0, Number = ?c - 1\<rparr>,
                              Log LevelDebug ''Attempting reset'', CallReset u safe f])
             else (Some (Errorf (ErrorDuringResetAt (?c - 1)) (Some e)),
                   (w'', trj @ [CallSafeDerivedAt (chainID m) \<lparr>Hash = 0, Number = ?c - 1\<rparr>,
                                Log LevelDebug ''Attempting reset'', CallReset u safe f])))"
      if "backend_SafeDerivedAt m wj (chainID m) \<lparr>Hash = 0, Number = ?c - 1\<rparr> = ((safe, None), w')"
        "Node_Reset m w' u safe f = (r', w'')" for r'
      by (rule walkBack_step [OF lt nf that])
    have more: "walked m u f 0 (Suc j) (w2, ?tr) =
        Some (w'', trj @ [CallSafeDerivedAt (chainID m) \<lparr>Hash = 0, Number = ?c - 1\<rparr>,
                          Log LevelDebug ''Attempting reset'', CallReset u safe f])"
      if "backend_SafeDerivedAt m wj (chainID m) \<lparr>Hash = 0, Number = ?c - 1\<rparr> = ((safe, None), w')"
        "Node_Reset m w' u safe f = (Some e', w'')" "walkable e'"
      by (rule walked_snoc [OF j that])
    show ?thesis
      unfolding walk c1 [symmetric]
      using fails step [of None] step [of "Some e'"] more by simp
  qed
  from queries bound round show ?thesis by blast
qed

theorem resolveConflict_wraps_at_zero_witness:
  "resolveConflict rejecting_node (l1_at 0) (block_at 160) (block_at 100) ([], []) =
     (Some (Errorf (ExceededMaxWalkBack maxWalkBackAttempts) None),
      ([], [CallSafeDerivedAt 10 (ID (l1_at 0)), Log LevelDebug ''Attempting reset'',
            CallReset (block_at 160) (block_at 0) (block_at 100)]
           @ concat (map (\<lambda>i. scenario_round (block_at 160) (block_at 100) (0 - 1 - of_nat i))
               [0..<maxWalkBackAttempts])))
   \<and> resolveConflict (gap_node 18446744073709551614) (l1_at 0) (block_at 160) (block_at 100)
       ([], []) =
     (Some (Errorf (FailedRetrieveSafeBlock 18446744073709551614) (Some NotFound)),
      ([], [CallSafeDerivedAt 10 (ID (l1_at 0)), Log LevelDebug ''Attempting reset'',
            CallReset (block_at 160) (block_at 0) (block_at 100)]
           @ scenario_round (block_at 160) (block_at 100) 18446744073709551615
           @ [CallSafeDerivedAt 10 (block_at 18446744073709551614)]))
   \<and> resolveConflict (conflict_node 18446744073709551613) (l1_at 0) (block_at 160)
       (block_at 100) ([], []) =
     (None,
      ([], [CallSafeDerivedAt 10 (ID (l1_at 0)), Log LevelDebug ''Attempting reset'',
            CallReset (block_at 160) (block_at 0) (block_at 100)]
           @ scenario_round (block_at 160) (block_at 100) 18446744073709551615
           @ scenario_round (block_at 160) (block_at 100) 18446744073709551614
           @ scenario_round (block_at 160) (block_at 100) 18446744073709551613))
   \<and> resolveConflict (busy_node 18446744073709551615) (l1_at 0) (block_at 160)
       (block_at 18446744073709551614) ([], []) =
     (Some (Errorf (ErrorDuringResetAt 18446744073709551615)
        (Some (ErrorString ''engine busy''))),
      ([], [CallSafeDerivedAt 10 (ID (l1_at 0)), Log LevelDebug ''Attempting reset'',
            CallReset (block_at 160) (block_at 0) (block_at 18446744073709551614)]
           @ scenario_round (block_at 160) (block_at 18446744073709551614)
               18446744073709551615))
   \<and> walked rejecting_node (block_at 160) (block_at 100) 0 (Suc 0)
       ([], [CallSafeDerivedAt 10 (ID (l1_at 0)), Log LevelDebug ''Attempting reset'',
             CallReset (block_at 160) (block_at 0) (block_at 100)]) =
     Some ([], [CallSafeDerivedAt 10 (ID (l1_at 0)), Log LevelDebug ''Attempting reset'',
                CallReset (block_at 160) (block_at 0) (block_at 100)]
               @ scenario_round (block_at 160) (block_at 100) 18446744073709551615)"
proof -
  let ?u = "block_at 160"
  let ?f = "block_at 100"
  let ?e = "JsonError conflictingBlockRPCErrCode ''conflicting block''"
  let ?tr = "\<lambda>f. [CallSafeDerivedAt 10 (ID (l1_at 0)), Log LevelDebug ''Attempting reset'',
                  CallReset ?u (block_at 0) f]"
  note defs = rejecting_node_def gap_node_def conflict_node_def busy_node_def base_node_def
    block_at_def l1_at_def ID_def scenario_round_def node_defs BlockID_zero_def
  have e: "walkable ?e" by simp
  have z: "Number (block_at 0) = 0" by (simp add: block_at_def)
  \<comment> \<open>300 walkable rounds: the attempt bound\<close>
  have bound: "resolveConflict rejecting_node (l1_at 0) ?u ?f ([], []) =
      (Some (Errorf (ExceededMaxWalkBack maxWalkBackAttempts) None),
       ([], ?tr ?f @ concat (map (\<lambda>i. scenario_round ?u ?f (0 - 1 - of_nat i))
              [0..<maxWalkBackAttempts])))"
  proof -
    have o: "backend_SafeDerivedAt rejecting_node [] (chainID rejecting_node) (ID (l1_at 0)) =
        ((block_at 0, None), [])"
      and r: "Node_Reset rejecting_node [] ?u (block_at 0) ?f = (Some ?e, [])"
      and c: "chainID rejecting_node = 10"
      by (simp_all add: defs)
    have j: "walked rejecting_node ?u ?f 0 maxWalkBackAttempts
        ([], [CallSafeDerivedAt (chainID rejecting_node) (ID (l1_at 0)),
              Log LevelDebug ''Attempting reset'', CallReset ?u (block_at 0) ?f]) =
        Some ([], ?tr ?f @ concat (map (\<lambda>i. scenario_round ?u ?f (0 - 1 - of_nat i))
               [0..<maxWalkBackAttempts]))"
      unfolding c by (rule walked_rejecting_node)
    have F: "unat (Number ?f) + maxWalkBackAttempts < 2 ^ 64"
      by (simp add: block_at_def maxWalkBackAttempts_def)
    from resolveConflict_wraps_at_zero [OF o z r e j order_refl F] show ?thesis
      by blast
  qed
  \<comment> \<open>one walkable round, then the oracle fails\<close>
  have gap: "resolveConflict (gap_node 18446744073709551614) (l1_at 0) ?u ?f ([], []) =
      (Some (Errorf (FailedRetrieveSafeBlock 18446744073709551614) (Some NotFound)),
       ([], ?tr ?f @ scenario_round ?u ?f 18446744073709551615
            @ [CallSafeDerivedAt 10 (block_at 18446744073709551614)]))"
    using resolveConflict_wraps_at_zero
      [where m = "gap_node 18446744073709551614" and w = "[]" and ?l1Ref = "l1_at 0"
         and s = "block_at 0" and ?w1.0 = "[]" and u = ?u and f = ?f and e = ?e
         and ?w2.0 = "[]" and j = "Suc 0" and wj = "[]"
         and trj = "?tr ?f @ scenario_round ?u ?f 18446744073709551615"
         and safe = BlockID_zero and err = NotFound and w' = "[]"]
    by (simp add: defs maxWalkBackAttempts_def)
  \<comment> \<open>two walkable rounds, then the reset succeeds\<close>
  have found: "resolveConflict (conflict_node 18446744073709551613) (l1_at 0) ?u ?f ([], []) =
      (None,
       ([], ?tr ?f @ scenario_round ?u ?f 18446744073709551615
            @ scenario_round ?u ?f 18446744073709551614
            @ scenario_round ?u ?f 18446744073709551613))"
    using resolveConflict_wraps_at_zero
      [where m = "conflict_node 18446744073709551613" and w = "[]" and ?l1Ref = "l1_at 0"
         and s = "block_at 0" and ?w1.0 = "[]" and u = ?u and f = ?f and e = ?e
         and ?w2.0 = "[]" and j = "Suc (Suc 0)" and wj = "[]"
         and trj = "?tr ?f @ scenario_round ?u ?f 18446744073709551615
                      @ scenario_round ?u ?f 18446744073709551614"
         and safe = "block_at 18446744073709551613" and w' = "[]" and w'' = "[]"]
    by (simp add: defs maxWalkBackAttempts_def)
  \<comment> \<open>no walkable round, finalized at \<open>2^64 - 2\<close>: the reset error is not walkable\<close>
  have busy: "resolveConflict (busy_node 18446744073709551615) (l1_at 0) ?u
        (block_at 18446744073709551614) ([], []) =
      (Some (Errorf (ErrorDuringResetAt 18446744073709551615)
         (Some (ErrorString ''engine busy''))),
       ([], ?tr (block_at 18446744073709551614)
            @ scenario_round ?u (block_at 18446744073709551614) 18446744073709551615))"
    using resolveConflict_wraps_at_zero
      [where m = "busy_node 18446744073709551615" and w = "[]" and ?l1Ref = "l1_at 0"
         and s = "block_at 0" and ?w1.0 = "[]" and u = ?u
         and f = "block_at 18446744073709551614" and e = ?e
         and ?w2.0 = "[]" and j = 0 and wj = "[]"
         and trj = "?tr (block_at 18446744073709551614)"
         and safe = "block_at 18446744073709551615" and w' = "[]" and w'' = "[]"
         and e' = "ErrorString ''engine busy''"]
    by (simp add: defs maxWalkBackAttempts_def walkable_def)
  \<comment> \<open>a walkable round: the walk goes on\<close>
  have more: "walked rejecting_node ?u ?f 0 (Suc 0) ([], ?tr ?f) =
      Some ([], ?tr ?f @ scenario_round ?u ?f 18446744073709551615)"
    using resolveConflict_wraps_at_zero
      [where m = rejecting_node and w = "[]" and ?l1Ref = "l1_at 0"
         and s = "block_at 0" and ?w1.0 = "[]" and u = ?u and f = ?f and e = ?e
         and ?w2.0 = "[]" and j = 0 and wj = "[]" and trj = "?tr ?f"
         and safe = "block_at 18446744073709551615" and w' = "[]" and w'' = "[]"
         and e' = ?e]
    by (simp add: defs maxWalkBackAttempts_def)
  from bound gap found busy more show ?thesis
    by (simp only: append_Cons append_Nil simp_thms)
qed

text \<open>The claim without that condition fails: when finalized has number \<open>2^64 - 1\<close> the
  wrapped counter is not above it, and the walk-back stops at the check against finalized
  before any oracle read.\<close>

theorem resolveConflict_wrap_finalized_counterexample:
  "fst (resolveConflict rejecting_node (l1_at 0) (block_at 160)
        (block_at 18446744073709551615) ([], [])) =
     Some (Errorf (ReachedFinalized 18446744073709551615) None)
   \<and> oracle_queries (snd (snd (resolveConflict rejecting_node (l1_at 0) (block_at 160)
        (block_at 18446744073709551615) ([], [])))) = [ID (l1_at 0)]"
proof -
  let ?f = "block_at 18446744073709551615"
  let ?tr = "[CallSafeDerivedAt 10 (ID (l1_at 0)), Log LevelDebug ''Attempting reset'',
              CallReset (block_at 160) (block_at 0) ?f]"
  have "resolveConflict rejecting_node (l1_at 0) (block_at 160) ?f ([], []) =
      walkBack rejecting_node (block_at 160) ?f 0 0 ([], ?tr)"
    by (simp add: resolveConflict_def tryReset_def node_defs rejecting_node_def base_node_def
        l1_at_def block_at_def ID_def)
  also have "\<dots> = (Some (Errorf (ReachedFinalized (Number ?f)) None), ([], ?tr))"
    by (rule walkBack_finalized) (simp_all add: maxWalkBackAttempts_def block_at_def max_uint64)
  finally show ?thesis
    by (simp add: block_at_def)
qed

end
